theory Spec2Isabelle
  imports Complex_Main "HOL-Library.AList" "HOL-Library.Word"
begin

section \<open>The slave (agent) of \<^verbatim>\<open>src/slave/slave.cpp\<close>\<close>

subsection \<open>Identifiers, protocol records and containers\<close>

text \<open>
  \<^verbatim>\<open>FrameworkID\<close>, \<^verbatim>\<open>ExecutorID\<close>, \<^verbatim>\<open>TaskID\<close> and \<^verbatim>\<open>SlaveID\<close> are protocol buffers that wrap
  one string (\<^verbatim>\<open>value()\<close>); streaming one with \<^verbatim>\<open><<\<close> prints that string. A \<^verbatim>\<open>process::UPID\<close>
  is modelled by its textual form; the default-constructed \<^verbatim>\<open>UPID()\<close> is the empty string and
  \<^verbatim>\<open>!pid\<close> holds exactly for it.
\<close>

type_synonym FrameworkID = string
type_synonym ExecutorID = string
type_synonym TaskID = string
type_synonym SlaveID = string
type_synonym UPID = string

text \<open>
  A \<^verbatim>\<open>hashmap<K, V>\<close> is an association list. The order of the list is the order in which
  \<^verbatim>\<open>foreachkey\<close>, \<^verbatim>\<open>foreachvalue\<close> and \<^verbatim>\<open>foreachpair\<close> visit the entries: the source leaves that
  order to the hash function, so the theorems below quantify over every list. Assigning
  through \<^verbatim>\<open>m[k] = v\<close> overwrites an entry in place and puts a new key at the end.
\<close>

type_synonym ('k, 'v) hashmap = "('k \<times> 'v) list"

definition contains :: "('k, 'v) hashmap \<Rightarrow> 'k \<Rightarrow> bool" where
  "contains m k = (map_of m k \<noteq> None)"

definition hm_set :: "'k \<Rightarrow> 'v \<Rightarrow> ('k, 'v) hashmap \<Rightarrow> ('k, 'v) hashmap" where
  "hm_set k v m = AList.update k v m"

definition erase :: "'k \<Rightarrow> ('k, 'v) hashmap \<Rightarrow> ('k, 'v) hashmap" where
  "erase k m = AList.delete k m"

text \<open>A hash map holds one entry for a key.\<close>

definition hashmap_ok :: "('k, 'v) hashmap \<Rightarrow> bool" where
  "hashmap_ok m = distinct (map fst m)"

subsection \<open>Working directories\<close>

text \<open>
  What \<^verbatim>\<open>opendir\<close> reports for a path: a directory stream, or \<^verbatim>\<open>NULL\<close> with \<^verbatim>\<open>errno\<close> either
  \<^verbatim>\<open>ENOENT\<close> or something else (\<^verbatim>\<open>ENOTDIR\<close>, \<^verbatim>\<open>EACCES\<close>, ...). The file system is a parameter.
\<close>

datatype opendir_result = DirOpened | ENOENT | OtherErrno

text \<open>\<^verbatim>\<open>INT_MAX\<close> of \<^verbatim>\<open>limits.h\<close> for a 32-bit \<^verbatim>\<open>int\<close>.\<close>

definition INT_MAX :: nat where
  "INT_MAX = 2147483647"

text \<open>\<^verbatim>\<open>os << i\<close> for a non-negative \<^verbatim>\<open>int\<close>: the decimal digits.\<close>

definition digit_char :: "nat \<Rightarrow> char" where
  "digit_char d = ''0123456789'' ! d"

fun string_of_nat :: "nat \<Rightarrow> string" where
  "string_of_nat n =
     (if n < 10 then [digit_char n]
      else string_of_nat (n div 10) @ [digit_char (n mod 10)])"

declare string_of_nat.simps [simp del]

text \<open>
  The loop of \<^verbatim>\<open>getUniqueWorkDirectory\<close>. The stream is opened in append mode, so \<^verbatim>\<open>os << i\<close>
  yields \<^verbatim>\<open>dir\<close> followed by the digits of \<^verbatim>\<open>i\<close>; the loop leaves through \<^verbatim>\<open>break\<close> with that
  string, or runs out at \<^verbatim>\<open>INT_MAX\<close> after \<^verbatim>\<open>os.str(dir)\<close> has reset the stream to \<^verbatim>\<open>dir\<close>.
\<close>

function probe :: "(string \<Rightarrow> opendir_result) \<Rightarrow> string \<Rightarrow> nat \<Rightarrow> string" where
  "probe opendir dir i =
     (if i < INT_MAX then
        (if opendir (dir @ string_of_nat i) = ENOENT then dir @ string_of_nat i
         else probe opendir dir (Suc i))
      else dir)"
  by pat_completeness auto
termination
  by (relation "measure (\<lambda>(opendir, dir, i). INT_MAX - i)") auto

declare probe.simps [simp del]

text \<open>
  \<^verbatim>\<open>Configuration\<close> is a map from option names to strings; \<^verbatim>\<open>conf.get(key, default)\<close> is the
  stored string when the key is there.
\<close>

type_synonym Configuration = "(string \<times> string) list"

definition conf_get :: "Configuration \<Rightarrow> string \<Rightarrow> string \<Rightarrow> string" where
  "conf_get conf key dflt = (case map_of conf key of None \<Rightarrow> dflt | Some v \<Rightarrow> v)"

definition getUniqueWorkDirectory ::
  "(string \<Rightarrow> opendir_result) \<Rightarrow> Configuration \<Rightarrow> SlaveID \<Rightarrow> FrameworkID \<Rightarrow> ExecutorID \<Rightarrow> string" where
  "getUniqueWorkDirectory opendir conf slave_id frameworkId executorId =
     (let workDir = ''.'';
          workDir = (if contains conf ''work_dir'' then conf_get conf ''work_dir'' workDir
                     else if contains conf ''home'' then conf_get conf ''home'' workDir
                     else workDir);
          workDir = workDir @ ''/work'';
          dir = workDir @ ''/slave-'' @ slave_id
                  @ ''/fw-'' @ frameworkId @ ''-'' @ executorId @ ''/''
      in probe opendir dir 0)"

subsection \<open>The registry: tasks, executors, frameworks\<close>

datatype TaskState =
  TASK_STARTING | TASK_RUNNING | TASK_FINISHED | TASK_FAILED | TASK_KILLED | TASK_LOST

text \<open>
  Of the protocol buffers only the fields that the slave reads or writes are kept.
  \<^verbatim>\<open>Resources\<close> (\<^verbatim>\<open>common/resources.hpp\<close>) is a type parameter \<open>'r\<close> with the operations
  \<^verbatim>\<open>+=\<close> and \<^verbatim>\<open>-=\<close> of the class as \<open>+\<close> and \<open>-\<close> and the empty vector as \<open>0\<close>; no law of
  the algebra is assumed.
\<close>

record ExecutorInfo =
  executor_id :: ExecutorID
  uri :: string
  data :: string

record FrameworkInfo =
  fi_name :: string
  fi_user :: string
  fi_executor :: ExecutorInfo

record 'r TaskDescription =
  td_name :: string
  td_task_id :: TaskID
  td_slave_id :: SlaveID
  td_resources :: 'r
  td_executor :: "ExecutorInfo option"

record 'r Task =
  t_name :: string
  t_task_id :: TaskID
  t_framework_id :: FrameworkID
  t_executor_id :: ExecutorID
  t_slave_id :: SlaveID
  t_state :: TaskState
  t_resources :: 'r

record TaskStatus =
  ts_task_id :: TaskID
  ts_state :: TaskState
  ts_data :: string

text \<open>
  Times (\<^verbatim>\<open>elapsedTime()\<close>, deadlines, timestamps) are \<^verbatim>\<open>double\<close>s in the source and reals
  here; rounding is not modelled.
\<close>

record StatusUpdate =
  su_framework_id :: FrameworkID
  su_executor_id :: "ExecutorID option"
  su_slave_id :: SlaveID
  su_status :: TaskStatus
  su_timestamp :: real
  su_sequence :: int

record 'r Executor =
  e_id :: ExecutorID
  e_info :: ExecutorInfo
  e_frameworkId :: FrameworkID
  e_directory :: string
  e_pid :: UPID
  e_resources :: 'r
  queuedTasks :: "(TaskID, 'r TaskDescription) hashmap"
  launchedTasks :: "(TaskID, 'r Task) hashmap"

record 'r Framework =
  f_id :: FrameworkID
  f_info :: FrameworkInfo
  f_pid :: UPID
  executors :: "(ExecutorID, 'r Executor) hashmap"
  updates :: "(real, (TaskID, StatusUpdate) hashmap) hashmap"

record 'r SlaveInfo =
  hostname :: string
  public_hostname :: string
  si_resources :: 'r

record Statistics =
  tasks :: "(TaskState, 64 word) hashmap"
  validStatusUpdates :: "64 word"
  invalidStatusUpdates :: "64 word"
  validFrameworkMessages :: "64 word"
  invalidFrameworkMessages :: "64 word"

text \<open>
  The members of \<^verbatim>\<open>class Slave\<close> that the handlers read or write. \<open>reaper\<close> is the pid of the
  \<^verbatim>\<open>ExecutorReaper\<close> process (\<^verbatim>\<open>reaper->self()\<close>); the isolation module is the outside and
  appears in the effects of a handler.
\<close>

record 'r Slave =
  conf :: Configuration
  slave_id :: SlaveID
  info :: "'r SlaveInfo"
  master :: UPID
  resources :: 'r
  frameworks :: "(FrameworkID, 'r Framework) hashmap"
  reaper :: UPID
  statistics :: Statistics
  startTime :: real

definition STATUS_UPDATE_RETRY_INTERVAL :: real where
  "STATUS_UPDATE_RETRY_INTERVAL = 10"

subsection \<open>What a handler does to the outside\<close>

record ExecutorArgs =
  ea_framework_id :: FrameworkID
  ea_executor_id :: ExecutorID
  ea_slave_id :: SlaveID
  ea_hostname :: string
  ea_data :: string

text \<open>
  The messages the slave sends. \<^verbatim>\<open>S2M_STATUS_UPDATE\<close> carries the update and the
  \<^verbatim>\<open>reliable\<close> flag. \<^verbatim>\<open>S2E_STATUS_UPDATE_ACK\<close> is the acknowledgement to an executor
  (framework, slave, task).
\<close>

datatype 'r Message =
    S2M_REGISTER_SLAVE "'r SlaveInfo"
  | S2M_REREGISTER_SLAVE SlaveID "'r SlaveInfo" "'r Task list"
  | S2M_STATUS_UPDATE StatusUpdate bool
  | S2M_EXITED_EXECUTOR SlaveID FrameworkID ExecutorID int
  | S2E_REGISTER_REPLY ExecutorArgs
  | S2E_RUN_TASK FrameworkInfo FrameworkID UPID "'r TaskDescription"
  | S2E_KILL_TASK FrameworkID TaskID
  | S2E_KILL_EXECUTOR
  | S2E_FRAMEWORK_MESSAGE SlaveID FrameworkID ExecutorID string
  | S2E_STATUS_UPDATE_ACK FrameworkID SlaveID TaskID
  | M2F_FRAMEWORK_MESSAGE SlaveID FrameworkID ExecutorID string
  | PONG

text \<open>
  A handler returns the new slave and, in program order, what it did to the outside:
  messages sent, calls into the isolation module, dispatches to the reaper, links.
\<close>

datatype 'r Effect =
    Send UPID "'r Message"
  | Link UPID
  | ResourcesChanged FrameworkID FrameworkInfo ExecutorInfo 'r
  | LaunchExecutor FrameworkID FrameworkInfo ExecutorInfo string
  | KillExecutor FrameworkID FrameworkInfo ExecutorInfo
  | ReaperWatch FrameworkID ExecutorID int

text \<open>
  How a handler can stop the process: a \<^verbatim>\<open>CHECK\<close> that fails, \<^verbatim>\<open>LOG(FATAL)\<close>, or a member
  access through a \<^verbatim>\<open>NULL\<close> pointer.
\<close>

datatype error = CheckFailed | Fatal | NullPointerDereference

definition deref :: "'a option \<Rightarrow> error + 'a" where
  "deref p = (case p of None \<Rightarrow> Inl NullPointerDereference | Some x \<Rightarrow> Inr x)"

subsection \<open>\<^verbatim>\<open>struct Executor\<close>\<close>

text \<open>
  \<^verbatim>\<open>addTask\<close> stops the process when the task id is already launched (\<^verbatim>\<open>CHECK\<close>). It is
  declared to return a \<^verbatim>\<open>Task*\<close>, but its body ends without a \<^verbatim>\<open>return\<close> and no caller reads the
  result, so the model returns the changed executor only.
\<close>

definition addTask :: "'r::plus TaskDescription \<Rightarrow> 'r Executor \<Rightarrow> error + 'r Executor" where
  "addTask task e =
     (if contains (launchedTasks e) (td_task_id task) then Inl CheckFailed
      else
        let t = \<lparr> t_name = td_name task,
                  t_task_id = td_task_id task,
                  t_framework_id = e_frameworkId e,
                  t_executor_id = e_id e,
                  t_slave_id = td_slave_id task,
                  t_state = TASK_STARTING,
                  t_resources = td_resources task \<rparr>
        in Inr (e\<lparr> launchedTasks := hm_set (td_task_id task) t (launchedTasks e),
                   e_resources := e_resources e + td_resources task \<rparr>))"

text \<open>
  \<^verbatim>\<open>removeTask\<close> subtracts the task's resources one \<^verbatim>\<open>Resource\<close> at a time; with \<open>'r\<close> abstract
  that loop is one subtraction of the task's vector.
\<close>

definition removeTask :: "TaskID \<Rightarrow> 'r::minus Executor \<Rightarrow> 'r Executor" where
  "removeTask taskId e =
     (let e = e\<lparr> queuedTasks := erase taskId (queuedTasks e) \<rparr>
      in case map_of (launchedTasks e) taskId of
           None \<Rightarrow> e
         | Some task \<Rightarrow>
             e\<lparr> e_resources := e_resources e - t_resources task,
                launchedTasks := erase taskId (launchedTasks e) \<rparr>)"

definition updateTaskState :: "TaskID \<Rightarrow> TaskState \<Rightarrow> 'r Executor \<Rightarrow> 'r Executor" where
  "updateTaskState taskId state e =
     (case map_of (launchedTasks e) taskId of
        None \<Rightarrow> e
      | Some task \<Rightarrow>
          e\<lparr> launchedTasks := hm_set taskId (task\<lparr> t_state := state \<rparr>) (launchedTasks e) \<rparr>)"

subsection \<open>\<^verbatim>\<open>struct Framework\<close>\<close>

text \<open>
  The constructors: a new executor has the empty pid, no resources and no tasks.
  \<^verbatim>\<open>struct Executor\<close> declares \<^verbatim>\<open>id\<close> before \<^verbatim>\<open>info\<close>, and members are initialised in the order
  of their declaration, so the initialiser \<^verbatim>\<open>id(info.executor_id())\<close> reads \<^verbatim>\<open>info\<close> before it
  is constructed. What it finds there is not determined by the program: the id of a new
  executor is the parameter \<open>unconstructed\<close>, not the id of the \<^verbatim>\<open>ExecutorInfo\<close>.
\<close>

definition new_Executor ::
  "ExecutorID \<Rightarrow> FrameworkID \<Rightarrow> ExecutorInfo \<Rightarrow> string \<Rightarrow> 'r::zero Executor" where
  "new_Executor unconstructed frameworkId einfo directory =
     \<lparr> e_id = unconstructed, e_info = einfo, e_frameworkId = frameworkId,
       e_directory = directory, e_pid = [], e_resources = 0,
       queuedTasks = [], launchedTasks = [] \<rparr>"

definition new_Framework :: "FrameworkID \<Rightarrow> FrameworkInfo \<Rightarrow> UPID \<Rightarrow> 'r Framework" where
  "new_Framework frameworkId finfo pid =
     \<lparr> f_id = frameworkId, f_info = finfo, f_pid = pid, executors = [], updates = [] \<rparr>"

definition createExecutor ::
  "ExecutorID \<Rightarrow> ExecutorInfo \<Rightarrow> string \<Rightarrow> 'r::zero Framework
     \<Rightarrow> error + ('r Framework \<times> 'r Executor)" where
  "createExecutor unconstructed einfo directory f =
     (let executor = new_Executor unconstructed (f_id f) einfo directory
      in if contains (executors f) (executor_id einfo) then Inl CheckFailed
         else Inr (f\<lparr> executors := hm_set (executor_id einfo) executor (executors f) \<rparr>,
                   executor))"

definition destroyExecutor :: "ExecutorID \<Rightarrow> 'r Framework \<Rightarrow> 'r Framework" where
  "destroyExecutor executorId f =
     (if contains (executors f) executorId
      then f\<lparr> executors := erase executorId (executors f) \<rparr> else f)"

text \<open>
  The two overloads of \<^verbatim>\<open>getExecutor\<close>. Where the source returns a pointer into the map and
  later writes through it, the model looks the executor up and stores the changed executor
  back under the key it was found at; the lookup by task id returns that key with the
  executor. \<open>None\<close> is \<^verbatim>\<open>NULL\<close>.
\<close>

definition getExecutor :: "ExecutorID \<Rightarrow> 'r Framework \<Rightarrow> 'r Executor option" where
  "getExecutor executorId f = map_of (executors f) executorId"

definition getExecutor_task :: "TaskID \<Rightarrow> 'r Framework \<Rightarrow> (ExecutorID \<times> 'r Executor) option" where
  "getExecutor_task taskId f =
     find (\<lambda>(k, executor). contains (queuedTasks executor) taskId
                          \<or> contains (launchedTasks executor) taskId) (executors f)"

definition put_executor :: "ExecutorID \<Rightarrow> 'r Executor \<Rightarrow> 'r Framework \<Rightarrow> 'r Framework" where
  "put_executor k executor f = f\<lparr> executors := hm_set k executor (executors f) \<rparr>"

subsection \<open>\<^verbatim>\<open>class Slave\<close>: the handlers\<close>

definition getFramework :: "FrameworkID \<Rightarrow> 'r Slave \<Rightarrow> 'r Framework option" where
  "getFramework frameworkId s = map_of (frameworks s) frameworkId"

definition put_framework :: "FrameworkID \<Rightarrow> 'r Framework \<Rightarrow> 'r Slave \<Rightarrow> 'r Slave" where
  "put_framework k framework s = s\<lparr> frameworks := hm_set k framework (frameworks s) \<rparr>"

text \<open>
  \<^verbatim>\<open>runTask\<close>. The parameters \<open>opendir\<close> (the file system), \<open>launched\<close> (the pid that
  \<^verbatim>\<open>isolationModule->launchExecutor\<close> returns) and \<open>unconstructed\<close> (what the constructor of a
  new executor reads as its id) stand for the outside. In the branch for
  \<^verbatim>\<open>executor == NULL\<close> the first statement passes \<^verbatim>\<open>executor->id\<close> to
  \<^verbatim>\<open>getUniqueWorkDirectory\<close>, which streams it into the path.
\<close>

definition runTask ::
  "(string \<Rightarrow> opendir_result) \<Rightarrow> int \<Rightarrow> ExecutorID \<Rightarrow> FrameworkInfo \<Rightarrow> FrameworkID \<Rightarrow> UPID
     \<Rightarrow> 'r::{plus,zero} TaskDescription \<Rightarrow> 'r Slave \<Rightarrow> error + ('r Slave \<times> 'r Effect list)" where
  "runTask opendir launched unconstructed frameworkInfo frameworkId pid task s =
     (let (framework, s) =
            (case getFramework frameworkId s of
               None \<Rightarrow> (let framework = new_Framework frameworkId frameworkInfo pid
                        in (framework, put_framework frameworkId framework s))
             | Some framework \<Rightarrow> (framework, s));
          executorId =
            (case td_executor task of
               Some einfo \<Rightarrow> executor_id einfo
             | None \<Rightarrow> executor_id (fi_executor (f_info framework)));
          executor = getExecutor executorId framework
      in case executor of
           Some ex \<Rightarrow>
             if e_pid ex = [] then
               (let ex = ex\<lparr> queuedTasks := hm_set (td_task_id task) task (queuedTasks ex) \<rparr>
                in Inr (put_framework frameworkId (put_executor executorId ex framework) s, []))
             else
               (case addTask task ex of
                  Inl err \<Rightarrow> Inl err
                | Inr ex \<Rightarrow>
                    Inr (put_framework frameworkId (put_executor executorId ex framework) s,
                         [Send (e_pid ex)
                            (S2E_RUN_TASK (f_info framework) (f_id framework) (f_pid framework) task),
                          ResourcesChanged (f_id framework) (f_info framework)
                            (e_info ex) (e_resources ex)]))
         | None \<Rightarrow>
             (case deref executor of
                Inl err \<Rightarrow> Inl err
              | Inr through_null \<Rightarrow>
                  let directory = getUniqueWorkDirectory opendir (conf s) (slave_id s)
                                    (f_id framework) (e_id through_null)
                  in (case createExecutor unconstructed
                             (case td_executor task of
                                Some einfo \<Rightarrow> einfo
                              | None \<Rightarrow> fi_executor (f_info framework))
                             directory framework of
                        Inl err \<Rightarrow> Inl err
                      | Inr (framework, ex) \<Rightarrow>
                          (let ex = ex\<lparr> queuedTasks :=
                                         hm_set (td_task_id task) task (queuedTasks ex) \<rparr>;
                               framework = put_executor (executor_id (e_info ex)) ex framework
                           in Inr (put_framework frameworkId framework s,
                                   LaunchExecutor (f_id framework) (f_info framework)
                                     (e_info ex) directory
                                   # (if launched \<noteq> 0
                                      then [ReaperWatch (f_id framework) (e_id ex) launched]
                                      else []))))))"

text \<open>
  \<^verbatim>\<open>killTask\<close>; \<open>now\<close> is \<^verbatim>\<open>elapsedTime()\<close>. Each branch fills in its own status update;
  fields that the source does not set are empty (\<^verbatim>\<open>executor_id\<close> absent, no \<^verbatim>\<open>data\<close>).
\<close>

definition killTask ::
  "real \<Rightarrow> FrameworkID \<Rightarrow> TaskID \<Rightarrow> 'r::minus Slave \<Rightarrow> 'r Slave \<times> 'r Effect list" where
  "killTask now frameworkId taskId s =
     (case getFramework frameworkId s of
        None \<Rightarrow>
          (s, [Send (master s)
                 (S2M_STATUS_UPDATE
                    \<lparr> su_framework_id = frameworkId, su_executor_id = None,
                       su_slave_id = slave_id s,
                       su_status = \<lparr> ts_task_id = taskId, ts_state = TASK_LOST, ts_data = [] \<rparr>,
                       su_timestamp = now, su_sequence = - 1 \<rparr>
                    False)])
      | Some framework \<Rightarrow>
          (case getExecutor_task taskId framework of
             None \<Rightarrow>
               (s, [Send (master s)
                      (S2M_STATUS_UPDATE
                         \<lparr> su_framework_id = f_id framework, su_executor_id = None,
                            su_slave_id = slave_id s,
                            su_status = \<lparr> ts_task_id = taskId, ts_state = TASK_LOST, ts_data = [] \<rparr>,
                            su_timestamp = now, su_sequence = - 1 \<rparr>
                         False)])
           | Some (k, executor) \<Rightarrow>
               if e_pid executor = [] then
                 (let executor = removeTask taskId executor
                  in (put_framework frameworkId (put_executor k executor framework) s,
                      [ResourcesChanged (f_id framework) (f_info framework)
                         (e_info executor) (e_resources executor),
                       Send (master s)
                         (S2M_STATUS_UPDATE
                            \<lparr> su_framework_id = f_id framework, su_executor_id = Some (e_id executor),
                               su_slave_id = slave_id s,
                               su_status = \<lparr> ts_task_id = taskId, ts_state = TASK_KILLED, ts_data = [] \<rparr>,
                               su_timestamp = now, su_sequence = 0 \<rparr>
                            False)]))
               else
                 (s, [Send (e_pid executor) (S2E_KILL_TASK frameworkId taskId)])))"

text \<open>
  \<^verbatim>\<open>statusUpdateAcknowledged\<close> walks the deadline buckets and erases the task id from the
  first bucket that holds it, then leaves the loop (\<^verbatim>\<open>break\<close>). The slave id is not read.
\<close>

fun ack_scan ::
  "TaskID \<Rightarrow> (real, (TaskID, StatusUpdate) hashmap) hashmap
     \<Rightarrow> (real, (TaskID, StatusUpdate) hashmap) hashmap" where
  "ack_scan taskId [] = []"
| "ack_scan taskId ((deadline, bucket) # rest) =
     (if contains bucket taskId then (deadline, erase taskId bucket) # rest
      else (deadline, bucket) # ack_scan taskId rest)"

definition statusUpdateAcknowledged ::
  "SlaveID \<Rightarrow> FrameworkID \<Rightarrow> TaskID \<Rightarrow> 'r Slave \<Rightarrow> 'r Slave \<times> 'r Effect list" where
  "statusUpdateAcknowledged slaveId frameworkId taskId s =
     (case getFramework frameworkId s of
        None \<Rightarrow> (s, [])
      | Some framework \<Rightarrow>
          (put_framework frameworkId
             (framework\<lparr> updates := ack_scan taskId (updates framework) \<rparr>) s, []))"

text \<open>
  \<^verbatim>\<open>registerExecutor\<close>; \<open>sender\<close> is \<^verbatim>\<open>from()\<close>. The loop over the queued tasks adds each task
  and sends it.
\<close>

fun flush ::
  "'r::plus Framework \<Rightarrow> 'r TaskDescription list \<Rightarrow> 'r Executor
     \<Rightarrow> error + ('r Executor \<times> 'r Effect list)" where
  "flush framework [] executor = Inr (executor, [])"
| "flush framework (task # rest) executor =
     (case addTask task executor of
        Inl err \<Rightarrow> Inl err
      | Inr executor \<Rightarrow>
          (case flush framework rest executor of
             Inl err \<Rightarrow> Inl err
           | Inr (executor', fx) \<Rightarrow>
               Inr (executor',
                    Send (e_pid executor)
                      (S2E_RUN_TASK (f_info framework) (f_id framework) (f_pid framework) task)
                    # fx)))"

definition registerExecutor ::
  "UPID \<Rightarrow> FrameworkID \<Rightarrow> ExecutorID \<Rightarrow> 'r::plus Slave \<Rightarrow> error + ('r Slave \<times> 'r Effect list)" where
  "registerExecutor sender frameworkId executorId s =
     (case getFramework frameworkId s of
        None \<Rightarrow> Inr (s, [Send sender S2E_KILL_EXECUTOR])
      | Some framework \<Rightarrow>
          (case getExecutor executorId framework of
             None \<Rightarrow> Inr (s, [Send sender S2E_KILL_EXECUTOR])
           | Some executor \<Rightarrow>
               if e_pid executor \<noteq> [] then Inr (s, [Send sender S2E_KILL_EXECUTOR])
               else
                 let executor = executor\<lparr> e_pid := sender \<rparr>;
                     changed = ResourcesChanged (f_id framework) (f_info framework)
                                 (e_info executor) (e_resources executor);
                     reply = Send (e_pid executor)
                               (S2E_REGISTER_REPLY
                                  \<lparr> ea_framework_id = f_id framework,
                                    ea_executor_id = e_id executor,
                                    ea_slave_id = slave_id s,
                                    ea_hostname = hostname (info s),
                                    ea_data = data (e_info executor) \<rparr>)
                 in (case flush framework (map snd (queuedTasks executor)) executor of
                       Inl err \<Rightarrow> Inl err
                     | Inr (executor, fx) \<Rightarrow>
                         (let executor = executor\<lparr> queuedTasks := [] \<rparr>
                          in Inr (put_framework frameworkId
                                    (put_executor executorId executor framework) s,
                                  changed # reply # fx)))))"

text \<open>\<^verbatim>\<open>statusUpdate\<close>; \<open>now\<close> is \<^verbatim>\<open>elapsedTime()\<close>.\<close>

definition terminal :: "TaskState \<Rightarrow> bool" where
  "terminal state =
     (state = TASK_FINISHED \<or> state = TASK_FAILED \<or> state = TASK_KILLED \<or> state = TASK_LOST)"

definition bucket_at ::
  "(real, (TaskID, StatusUpdate) hashmap) hashmap \<Rightarrow> real \<Rightarrow> (TaskID, StatusUpdate) hashmap" where
  "bucket_at ups deadline = (case map_of ups deadline of None \<Rightarrow> [] | Some bucket \<Rightarrow> bucket)"

definition statusUpdate ::
  "real \<Rightarrow> StatusUpdate \<Rightarrow> 'r::minus Slave \<Rightarrow> 'r Slave \<times> 'r Effect list" where
  "statusUpdate now update s =
     (let status = su_status update
      in case getFramework (su_framework_id update) s of
           None \<Rightarrow> (s, [])
         | Some framework \<Rightarrow>
             (case getExecutor_task (ts_task_id status) framework of
                None \<Rightarrow> (s, [])
              | Some (k, executor) \<Rightarrow>
                  let executor = updateTaskState (ts_task_id status) (ts_state status) executor;
                      (executor, changed) =
                        (if terminal (ts_state status) then
                           (let executor = removeTask (ts_task_id status) executor
                            in (executor,
                                [ResourcesChanged (f_id framework) (f_info framework)
                                   (e_info executor) (e_resources executor)]))
                         else (executor, []));
                      sent = Send (master s) (S2M_STATUS_UPDATE update True);
                      deadline = now + STATUS_UPDATE_RETRY_INTERVAL;
                      framework = put_executor k executor framework;
                      framework = framework\<lparr> updates :=
                        hm_set deadline
                          (hm_set (ts_task_id status) update (bucket_at (updates framework) deadline))
                          (updates framework) \<rparr>
                  in (put_framework (su_framework_id update) framework s, changed @ [sent])))"

text \<open>
  \<^verbatim>\<open>timeout\<close>: every update of every bucket whose deadline has passed is sent again; nothing
  is erased or moved. The source reads \<^verbatim>\<open>elapsedTime()\<close> at each bucket; the model reads it
  once (\<open>now\<close>).
\<close>

definition resend_bucket :: "UPID \<Rightarrow> (TaskID, StatusUpdate) hashmap \<Rightarrow> 'r Effect list" where
  "resend_bucket to bucket =
     map (\<lambda>(taskId, update). Send to (S2M_STATUS_UPDATE update True)) bucket"

definition resend_framework :: "UPID \<Rightarrow> real \<Rightarrow> 'r Framework \<Rightarrow> 'r Effect list" where
  "resend_framework to now framework =
     concat (map (\<lambda>(deadline, bucket). if deadline \<le> now then resend_bucket to bucket else [])
                 (updates framework))"

definition timeout :: "real \<Rightarrow> 'r Slave \<Rightarrow> 'r Slave \<times> 'r Effect list" where
  "timeout now s =
     (s, concat (map (\<lambda>(frameworkId, framework). resend_framework (master s) now framework)
                     (frameworks s)))"

text \<open>The remaining handlers, in the order of the source.\<close>

definition newMasterDetected :: "UPID \<Rightarrow> 'r Slave \<Rightarrow> 'r Slave \<times> 'r Effect list" where
  "newMasterDetected pid s =
     (let s = s\<lparr> master := pid \<rparr>
      in if slave_id s = [] then
           (s, [Link (master s), Send (master s) (S2M_REGISTER_SLAVE (info s))])
         else
           (s, [Link (master s),
                Send (master s)
                  (S2M_REREGISTER_SLAVE (slave_id s) (info s)
                     (concat (map (\<lambda>(frameworkId, framework).
                                concat (map (\<lambda>(executorId, executor).
                                               map snd (launchedTasks executor))
                                            (executors framework)))
                                  (frameworks s))))]))"

definition noMasterDetected :: "'r Slave \<Rightarrow> 'r Slave \<times> 'r Effect list" where
  "noMasterDetected s = (s, [])"

definition registerReply :: "SlaveID \<Rightarrow> 'r Slave \<Rightarrow> 'r Slave \<times> 'r Effect list" where
  "registerReply slaveId s = (s\<lparr> slave_id := slaveId \<rparr>, [])"

definition reregisterReply :: "SlaveID \<Rightarrow> 'r Slave \<Rightarrow> error + ('r Slave \<times> 'r Effect list)" where
  "reregisterReply slaveId s = (if slave_id s \<noteq> slaveId then Inl Fatal else Inr (s, []))"

definition removeExecutor ::
  "'r Framework \<Rightarrow> 'r Executor \<Rightarrow> bool \<Rightarrow> 'r Framework \<times> 'r Effect list" where
  "removeExecutor framework executor killExecutor =
     (destroyExecutor (e_id executor) framework,
      if killExecutor
      then [Send (e_pid executor) S2E_KILL_EXECUTOR,
            KillExecutor (f_id framework) (f_info framework) (e_info executor)]
      else [])"

text \<open>
  \<^verbatim>\<open>removeFramework\<close> removes every executor of a copy of the executor map, then erases the
  framework under \<^verbatim>\<open>framework->id\<close> and deletes it.
\<close>

fun remove_executors ::
  "'r Framework \<Rightarrow> 'r Executor list \<Rightarrow> bool \<Rightarrow> 'r Framework \<times> 'r Effect list" where
  "remove_executors framework [] killExecutors = (framework, [])"
| "remove_executors framework (executor # rest) killExecutors =
     (let (framework, fx) = removeExecutor framework executor killExecutors;
          (framework, fx') = remove_executors framework rest killExecutors
      in (framework, fx @ fx'))"

definition removeFramework ::
  "'r Framework \<Rightarrow> bool \<Rightarrow> 'r Slave \<Rightarrow> 'r Slave \<times> 'r Effect list" where
  "removeFramework framework killExecutors s =
     (let (framework, fx) =
            remove_executors framework (map snd (executors framework)) killExecutors
      in (s\<lparr> frameworks := erase (f_id framework) (frameworks s) \<rparr>, fx))"

definition killFramework :: "FrameworkID \<Rightarrow> 'r Slave \<Rightarrow> 'r Slave \<times> 'r Effect list" where
  "killFramework frameworkId s =
     (case getFramework frameworkId s of
        None \<Rightarrow> (s, [])
      | Some framework \<Rightarrow> removeFramework framework True s)"

definition count_invalid_message :: "'r Slave \<Rightarrow> 'r Slave" where
  "count_invalid_message s =
     s\<lparr> statistics := (statistics s)\<lparr> invalidFrameworkMessages :=
                          invalidFrameworkMessages (statistics s) + 1 \<rparr> \<rparr>"

definition count_valid_message :: "'r Slave \<Rightarrow> 'r Slave" where
  "count_valid_message s =
     s\<lparr> statistics := (statistics s)\<lparr> validFrameworkMessages :=
                          validFrameworkMessages (statistics s) + 1 \<rparr> \<rparr>"

definition schedulerMessage ::
  "SlaveID \<Rightarrow> FrameworkID \<Rightarrow> ExecutorID \<Rightarrow> string \<Rightarrow> 'r Slave \<Rightarrow> 'r Slave \<times> 'r Effect list" where
  "schedulerMessage slaveId frameworkId executorId bytes s =
     (case getFramework frameworkId s of
        None \<Rightarrow> (count_invalid_message s, [])
      | Some framework \<Rightarrow>
          (case getExecutor executorId framework of
             None \<Rightarrow> (count_invalid_message s, [])
           | Some executor \<Rightarrow>
               if e_pid executor = [] then (count_invalid_message s, [])
               else (count_valid_message s,
                     [Send (e_pid executor)
                        (S2E_FRAMEWORK_MESSAGE slaveId frameworkId executorId bytes)])))"

definition updateFramework :: "FrameworkID \<Rightarrow> UPID \<Rightarrow> 'r Slave \<Rightarrow> 'r Slave \<times> 'r Effect list" where
  "updateFramework frameworkId pid s =
     (case getFramework frameworkId s of
        None \<Rightarrow> (s, [])
      | Some framework \<Rightarrow> (put_framework frameworkId (framework\<lparr> f_pid := pid \<rparr>) s, []))"

definition executorMessage ::
  "SlaveID \<Rightarrow> FrameworkID \<Rightarrow> ExecutorID \<Rightarrow> string \<Rightarrow> 'r Slave \<Rightarrow> 'r Slave \<times> 'r Effect list" where
  "executorMessage slaveId frameworkId executorId bytes s =
     (case getFramework frameworkId s of
        None \<Rightarrow> (count_invalid_message s, [])
      | Some framework \<Rightarrow>
          (count_valid_message s,
           [Send (f_pid framework)
              (M2F_FRAMEWORK_MESSAGE slaveId frameworkId executorId bytes)]))"

definition ping :: "UPID \<Rightarrow> 'r Slave \<Rightarrow> 'r Slave \<times> 'r Effect list" where
  "ping sender s = (s, [Send sender PONG])"

definition exited :: "UPID \<Rightarrow> 'r Slave \<Rightarrow> error + ('r Slave \<times> 'r Effect list)" where
  "exited sender s =
     (if sender = master s then Inr (s, [])
      else if sender = reaper s then Inl Fatal
      else Inr (s, []))"

definition executorExited ::
  "FrameworkID \<Rightarrow> ExecutorID \<Rightarrow> int \<Rightarrow> 'r Slave \<Rightarrow> 'r Slave \<times> 'r Effect list" where
  "executorExited frameworkId executorId result s =
     (case getFramework frameworkId s of
        None \<Rightarrow> (s, [])
      | Some framework \<Rightarrow>
          (case getExecutor executorId framework of
             None \<Rightarrow> (s, [])
           | Some executor \<Rightarrow>
               let sent = Send (master s)
                            (S2M_EXITED_EXECUTOR (slave_id s) frameworkId executorId result);
                   (framework, fx) = removeExecutor framework executor False;
                   s = put_framework frameworkId framework s
               in if length (executors framework) = 0 then
                    (let (s, fx') = removeFramework framework True s
                     in (s, sent # fx @ fx'))
                  else (s, sent # fx)))"

subsection \<open>The event loop\<close>

text \<open>
  The slave is one actor: it takes one event at a time and runs its handler to the end. An
  event is a message or dispatch with its arguments; for \<^verbatim>\<open>RunTask\<close> it also carries what the
  outside answers during the handler (the file system seen by \<^verbatim>\<open>opendir\<close>, the pid from the
  isolation module, the id that a new executor reads), and for messages whose handler reads
  \<^verbatim>\<open>from()\<close> the sender. Each event comes with the value of \<^verbatim>\<open>elapsedTime()\<close> at which it is
  handled.
\<close>

datatype 'r Event =
    NewMasterDetected UPID
  | NoMasterDetected
  | RegisterReply SlaveID
  | ReregisterReply SlaveID
  | RunTask "string \<Rightarrow> opendir_result" int ExecutorID
      FrameworkInfo FrameworkID UPID "'r TaskDescription"
  | KillTask FrameworkID TaskID
  | KillFramework FrameworkID
  | SchedulerMessage SlaveID FrameworkID ExecutorID string
  | UpdateFramework FrameworkID UPID
  | StatusUpdateAck SlaveID FrameworkID TaskID
  | RegisterExecutor UPID FrameworkID ExecutorID
  | StatusUpdated StatusUpdate
  | ExecutorMessage SlaveID FrameworkID ExecutorID string
  | Ping UPID
  | Timeout
  | Exited UPID
  | ExecutorExited FrameworkID ExecutorID int

fun handle ::
  "real \<Rightarrow> 'r::{plus,minus,zero} Event \<Rightarrow> 'r Slave \<Rightarrow> error + ('r Slave \<times> 'r Effect list)" where
  "handle now (NewMasterDetected pid) s = Inr (newMasterDetected pid s)"
| "handle now NoMasterDetected s = Inr (noMasterDetected s)"
| "handle now (RegisterReply slaveId) s = Inr (registerReply slaveId s)"
| "handle now (ReregisterReply slaveId) s = reregisterReply slaveId s"
| "handle now (RunTask opendir launched unconstructed frameworkInfo frameworkId pid task) s =
     runTask opendir launched unconstructed frameworkInfo frameworkId pid task s"
| "handle now (KillTask frameworkId taskId) s = Inr (killTask now frameworkId taskId s)"
| "handle now (KillFramework frameworkId) s = Inr (killFramework frameworkId s)"
| "handle now (SchedulerMessage slaveId frameworkId executorId bytes) s =
     Inr (schedulerMessage slaveId frameworkId executorId bytes s)"
| "handle now (UpdateFramework frameworkId pid) s = Inr (updateFramework frameworkId pid s)"
| "handle now (StatusUpdateAck slaveId frameworkId taskId) s =
     Inr (statusUpdateAcknowledged slaveId frameworkId taskId s)"
| "handle now (RegisterExecutor sender frameworkId executorId) s =
     registerExecutor sender frameworkId executorId s"
| "handle now (StatusUpdated update) s = Inr (statusUpdate now update s)"
| "handle now (ExecutorMessage slaveId frameworkId executorId bytes) s =
     Inr (executorMessage slaveId frameworkId executorId bytes s)"
| "handle now (Ping sender) s = Inr (ping sender s)"
| "handle now Timeout s = Inr (timeout now s)"
| "handle now (Exited sender) s = exited sender s"
| "handle now (ExecutorExited frameworkId executorId result) s =
     Inr (executorExited frameworkId executorId result s)"

text \<open>A run handles timed events one after the other and stops with the first error.\<close>

fun run ::
  "(real \<times> 'r::{plus,minus,zero} Event) list \<Rightarrow> 'r Slave
     \<Rightarrow> error + ('r Slave \<times> 'r Effect list)" where
  "run [] s = Inr (s, [])"
| "run ((now, ev) # rest) s =
     (case handle now ev s of
        Inl err \<Rightarrow> Inl err
      | Inr (s', fx) \<Rightarrow>
          (case run rest s' of
             Inl err \<Rightarrow> Inl err
           | Inr (s'', fx') \<Rightarrow> Inr (s'', fx @ fx')))"

text \<open>
  What a \<^verbatim>\<open>timeout\<close> at \<open>now\<close> sends again, entry by entry: the framework id, the deadline of
  the bucket and the task id an update is stored under, and the update.
\<close>

definition resent :: "real \<Rightarrow> 'r Slave \<Rightarrow> (FrameworkID \<times> real \<times> TaskID \<times> StatusUpdate) list" where
  "resent now s =
     concat (map (\<lambda>(frameworkId, framework).
       concat (map (\<lambda>(deadline, bucket).
         if deadline \<le> now
         then map (\<lambda>(taskId, update). (frameworkId, deadline, taskId, update)) bucket
         else []) (updates framework))) (frameworks s))"

text \<open>The deadline buckets of a framework, none when the slave does not know it.\<close>

definition buckets :: "FrameworkID \<Rightarrow> 'r Slave \<Rightarrow> (real, (TaskID, StatusUpdate) hashmap) hashmap" where
  "buckets frameworkId s =
     (case getFramework frameworkId s of None \<Rightarrow> [] | Some framework \<Rightarrow> updates framework)"

definition holding :: "TaskID \<Rightarrow> (real, (TaskID, StatusUpdate) hashmap) hashmap \<Rightarrow> nat" where
  "holding taskId ups = length (filter (\<lambda>(deadline, bucket). contains bucket taskId) ups)"


text \<open>
  No update is stored for a task of a framework under a deadline up to \<open>t\<close>: every bucket of
  the framework that holds the task id has a later deadline.
\<close>

definition retired :: "FrameworkID \<Rightarrow> TaskID \<Rightarrow> real \<Rightarrow> 'r Slave \<Rightarrow> bool" where
  "retired frameworkId taskId t s =
     (\<forall>(fid, framework) \<in> set (frameworks s).
        fid = frameworkId \<longrightarrow>
        (\<forall>(deadline, bucket) \<in> set (updates framework).
           contains bucket taskId \<longrightarrow> t < deadline))"


text \<open>
  What the handlers keep true of the registry. The framework map has one entry for a key; a
  queue is a map from task ids to the descriptions of those very tasks; an executor that has
  not registered has launched nothing. A received \<^verbatim>\<open>RegisterExecutor\<close> has a sender.
\<close>

definition queue_ok :: "'r Executor \<Rightarrow> bool" where
  "queue_ok e =
     (hashmap_ok (queuedTasks e)
      \<and> (\<forall>(k, task) \<in> set (queuedTasks e). td_task_id task = k)
      \<and> (e_pid e = [] \<longrightarrow> launchedTasks e = []))"

definition executors_ok :: "'r Framework \<Rightarrow> bool" where
  "executors_ok f = (\<forall>(executorId, e) \<in> set (executors f). queue_ok e)"

definition registry_ok :: "'r Slave \<Rightarrow> bool" where
  "registry_ok s =
     (hashmap_ok (frameworks s)
      \<and> (\<forall>(frameworkId, f) \<in> set (frameworks s). executors_ok f))"

definition event_ok :: "'r Event \<Rightarrow> bool" where
  "event_ok ev =
     (case ev of RegisterExecutor sender frameworkId executorId \<Rightarrow> sender \<noteq> [] | _ \<Rightarrow> True)"


subsection \<open>Reading the registry\<close>

text \<open>
  What the registry holds under a framework id, an executor id, a task id, a deadline: the
  chained lookups \<^verbatim>\<open>frameworks[f]->executors[e]->launchedTasks[t]\<close> and so on, with \<open>None\<close>
  when a key is missing on the way.
\<close>

definition executor_at :: "FrameworkID \<Rightarrow> ExecutorID \<Rightarrow> 'r Slave \<Rightarrow> 'r Executor option" where
  "executor_at frameworkId executorId s =
     Option.bind (getFramework frameworkId s) (getExecutor executorId)"

definition launched_task ::
  "FrameworkID \<Rightarrow> ExecutorID \<Rightarrow> TaskID \<Rightarrow> 'r Slave \<Rightarrow> 'r Task option" where
  "launched_task frameworkId executorId taskId s =
     Option.bind (executor_at frameworkId executorId s) (\<lambda>e. map_of (launchedTasks e) taskId)"

definition queued_task ::
  "FrameworkID \<Rightarrow> ExecutorID \<Rightarrow> TaskID \<Rightarrow> 'r Slave \<Rightarrow> 'r TaskDescription option" where
  "queued_task frameworkId executorId taskId s =
     Option.bind (executor_at frameworkId executorId s) (\<lambda>e. map_of (queuedTasks e) taskId)"

definition stored_update ::
  "FrameworkID \<Rightarrow> real \<Rightarrow> TaskID \<Rightarrow> 'r Slave \<Rightarrow> StatusUpdate option" where
  "stored_update frameworkId deadline taskId s =
     Option.bind (getFramework frameworkId s)
       (\<lambda>f. Option.bind (map_of (updates f) deadline) (\<lambda>bucket. map_of bucket taskId))"

subsection \<open>Scenarios\<close>

text \<open>
  Concrete slaves for the scenarios of the specification, with one scalar (an integer) as
  the resource vector: framework \<^verbatim>\<open>f1\<close> with default executor \<^verbatim>\<open>e1\<close> and tasks \<^verbatim>\<open>t1\<close>,
  \<^verbatim>\<open>t2\<close> on slave \<^verbatim>\<open>s1\<close>.
\<close>

definition no_directories :: "string \<Rightarrow> opendir_result" where
  "no_directories path = ENOENT"

definition first_taken :: "string \<Rightarrow> opendir_result" where
  "first_taken path =
     (if path = ''/tmp/work/slave-s1/fw-f1-e1/0'' then DirOpened else ENOENT)"

definition einfo1 :: ExecutorInfo where
  "einfo1 = \<lparr> executor_id = ''e1'', uri = ''/bin/executor'', data = ''opaque'' \<rparr>"

definition finfo1 :: FrameworkInfo where
  "finfo1 = \<lparr> fi_name = ''framework'', fi_user = ''user'', fi_executor = einfo1 \<rparr>"

definition task1 :: "int TaskDescription" where
  "task1 = \<lparr> td_name = ''first'', td_task_id = ''t1'', td_slave_id = ''s1'',
             td_resources = 1, td_executor = None \<rparr>"

definition task2 :: "int TaskDescription" where
  "task2 = \<lparr> td_name = ''second'', td_task_id = ''t2'', td_slave_id = ''s1'',
             td_resources = 2, td_executor = None \<rparr>"

definition launched1 :: "int Task" where
  "launched1 = \<lparr> t_name = ''first'', t_task_id = ''t1'', t_framework_id = ''f1'',
                 t_executor_id = ''e1'', t_slave_id = ''s1'', t_state = TASK_STARTING,
                 t_resources = 1 \<rparr>"

definition launched2 :: "int Task" where
  "launched2 = \<lparr> t_name = ''second'', t_task_id = ''t2'', t_framework_id = ''f1'',
                 t_executor_id = ''e1'', t_slave_id = ''s1'', t_state = TASK_STARTING,
                 t_resources = 2 \<rparr>"

definition slave_empty :: "int Slave" where
  "slave_empty =
     \<lparr> conf = [(''work_dir'', ''/tmp'')], slave_id = ''s1'',
       info = \<lparr> hostname = ''host'', public_hostname = ''host'', si_resources = 4 \<rparr>,
       master = ''master@host'', resources = 4, frameworks = [], reaper = ''reaper@host'',
       statistics = \<lparr> tasks = [(TASK_STARTING, 0), (TASK_RUNNING, 0), (TASK_FINISHED, 0),
                               (TASK_FAILED, 0), (TASK_KILLED, 0), (TASK_LOST, 0)],
                      validStatusUpdates = 0, invalidStatusUpdates = 0,
                      validFrameworkMessages = 0, invalidFrameworkMessages = 0 \<rparr>,
       startTime = 0 \<rparr>"

text \<open>The executor has been created and both tasks wait for it to register.\<close>

definition executor_queued :: "int Executor" where
  "executor_queued =
     \<lparr> e_id = ''e1'', e_info = einfo1, e_frameworkId = ''f1'',
       e_directory = ''/tmp/work/slave-s1/fw-f1-e1/0'', e_pid = [], e_resources = 0,
       queuedTasks = [(''t1'', task1), (''t2'', task2)], launchedTasks = [] \<rparr>"

definition framework_queued :: "int Framework" where
  "framework_queued =
     \<lparr> f_id = ''f1'', f_info = finfo1, f_pid = ''scheduler@host'',
       executors = [(''e1'', executor_queued)], updates = [] \<rparr>"

definition slave_queued :: "int Slave" where
  "slave_queued = slave_empty\<lparr> frameworks := [(''f1'', framework_queued)] \<rparr>"

text \<open>The executor has registered and both tasks are launched.\<close>

definition executor_running :: "int Executor" where
  "executor_running =
     \<lparr> e_id = ''e1'', e_info = einfo1, e_frameworkId = ''f1'',
       e_directory = ''/tmp/work/slave-s1/fw-f1-e1/0'', e_pid = ''executor@host'',
       e_resources = 3,
       queuedTasks = [], launchedTasks = [(''t1'', launched1), (''t2'', launched2)] \<rparr>"

definition framework_running :: "int Framework" where
  "framework_running =
     \<lparr> f_id = ''f1'', f_info = finfo1, f_pid = ''scheduler@host'',
       executors = [(''e1'', executor_running)], updates = [] \<rparr>"

definition slave_running :: "int Slave" where
  "slave_running = slave_empty\<lparr> frameworks := [(''f1'', framework_running)] \<rparr>"

definition update_of :: "TaskID \<Rightarrow> TaskState \<Rightarrow> real \<Rightarrow> StatusUpdate" where
  "update_of taskId state time =
     \<lparr> su_framework_id = ''f1'', su_executor_id = Some ''e1'', su_slave_id = ''s1'',
       su_status = \<lparr> ts_task_id = taskId, ts_state = state, ts_data = [] \<rparr>,
       su_timestamp = time, su_sequence = 0 \<rparr>"


text \<open>
  The executor has reported \<^verbatim>\<open>t1\<close> as running at time 0 and as finished at time 1, and the
  master has acknowledged neither update: \<^verbatim>\<open>t1\<close> is gone from the executor and both updates
  wait, under the deadlines 10 and 11.
\<close>

definition executor_finished :: "int Executor" where
  "executor_finished =
     \<lparr> e_id = ''e1'', e_info = einfo1, e_frameworkId = ''f1'',
       e_directory = ''/tmp/work/slave-s1/fw-f1-e1/0'', e_pid = ''executor@host'',
       e_resources = 2,
       queuedTasks = [], launchedTasks = [(''t2'', launched2)] \<rparr>"

definition framework_pending :: "int Framework" where
  "framework_pending =
     \<lparr> f_id = ''f1'', f_info = finfo1, f_pid = ''scheduler@host'',
       executors = [(''e1'', executor_finished)],
       updates = [(10, [(''t1'', update_of ''t1'' TASK_RUNNING 0)]),
                  (11, [(''t1'', update_of ''t1'' TASK_FINISHED 1)])] \<rparr>"

definition slave_pending :: "int Slave" where
  "slave_pending = slave_empty\<lparr> frameworks := [(''f1'', framework_pending)] \<rparr>"


text \<open>The master has then acknowledged \<^verbatim>\<open>t1\<close> once.\<close>

definition slave_acked :: "int Slave" where
  "slave_acked =
     slave_empty\<lparr> frameworks :=
       [(''f1'', framework_pending\<lparr> updates :=
                   [(10, []), (11, [(''t1'', update_of ''t1'' TASK_FINISHED 1)])] \<rparr>)] \<rparr>"


subsection \<open>Reachable states\<close>

text \<open>
  The constructors of \<^verbatim>\<open>Slave\<close> and \<^verbatim>\<open>initialize()\<close> leave the framework map empty; the other
  members come from the configuration and the command line. A slave is reachable when it is
  such a slave, or comes from a reachable one by a handler that returns.
\<close>

inductive reachable :: "'r::{plus,minus,zero} Slave \<Rightarrow> bool" where
  constructed: "frameworks s = [] \<Longrightarrow> reachable s"
| handled: "reachable s \<Longrightarrow> handle now ev s = Inr (s', fx) \<Longrightarrow> reachable s'"


section \<open>Properties\<close>

subsection \<open>Containers and registry lookups\<close>

lemma map_of_hm_set_same [simp]: "map_of (hm_set k v m) k = Some v"
  by (simp add: hm_set_def update_conv')

lemma map_of_hm_set_other [simp]: "k' \<noteq> k \<Longrightarrow> map_of (hm_set k v m) k' = map_of m k'"
  by (simp add: hm_set_def update_conv')

lemma map_of_erase_same [simp]: "map_of (erase k m) k = None"
  by (simp add: erase_def delete_conv')

lemma map_of_erase_other [simp]: "k' \<noteq> k \<Longrightarrow> map_of (erase k m) k' = map_of m k'"
  by (simp add: erase_def delete_conv')

lemma getFramework_put [simp]: "getFramework k (put_framework k f s) = Some f"
  by (simp add: getFramework_def put_framework_def)

lemma getExecutor_put [simp]: "getExecutor k (put_executor k e f) = Some e"
  by (simp add: getExecutor_def put_executor_def)

lemma updates_put_executor [simp]: "updates (put_executor k e f) = updates f"
  by (simp add: put_executor_def)

lemma removeTask_launched [simp]: "map_of (launchedTasks (removeTask t e)) t = None"
  by (simp add: removeTask_def Let_def split: option.splits)

lemma removeTask_queued [simp]: "map_of (queuedTasks (removeTask t e)) t = None"
  by (simp add: removeTask_def Let_def split: option.splits)

lemma removeTask_resources:
  "e_resources (removeTask t e) =
     (case map_of (launchedTasks e) t of
        None \<Rightarrow> e_resources e
      | Some task \<Rightarrow> e_resources e - t_resources task)"
  by (simp add: removeTask_def Let_def split: option.splits)

lemma removeTask_info [simp]: "e_info (removeTask t e) = e_info e"
  by (simp add: removeTask_def Let_def split: option.splits)

lemma removeTask_id [simp]: "e_id (removeTask t e) = e_id e"
  by (simp add: removeTask_def Let_def split: option.splits)

lemma updateTaskState_launched:
  "map_of (launchedTasks (updateTaskState t st e)) t =
     map_option (\<lambda>task. task\<lparr> t_state := st \<rparr>) (map_of (launchedTasks e) t)"
  by (simp add: updateTaskState_def split: option.splits)

lemma updateTaskState_resources [simp]: "e_resources (updateTaskState t st e) = e_resources e"
  by (simp add: updateTaskState_def split: option.splits)

lemma updateTaskState_info [simp]: "e_info (updateTaskState t st e) = e_info e"
  by (simp add: updateTaskState_def split: option.splits)

lemma terminal_iff:
  "terminal st \<longleftrightarrow> st \<in> {TASK_FINISHED, TASK_FAILED, TASK_KILLED, TASK_LOST}"
  by (simp add: terminal_def)

lemma set_hm_set: "x \<in> set (hm_set k v m) \<Longrightarrow> x = (k, v) \<or> x \<in> set m"
  unfolding hm_set_def by (induction m) (auto split: if_splits)

lemma set_erase: "x \<in> set (erase k m) \<Longrightarrow> x \<in> set m"
  by (simp add: erase_def AList.delete_eq)

lemma getFramework_in: "getFramework k s = Some f \<Longrightarrow> (k, f) \<in> set (frameworks s)"
  by (simp add: getFramework_def map_of_SomeD)

lemma hashmap_ok_unique:
  "hashmap_ok m \<Longrightarrow> map_of m k = Some v \<Longrightarrow> (k, v') \<in> set m \<Longrightarrow> v' = v"
  by (simp add: hashmap_ok_def)

lemma hashmap_ok_absent:
  "map_of m k = None \<Longrightarrow> (k, v') \<notin> set m"
  by (metis map_of_eq_None_iff fst_conv image_eqI)

lemma hashmap_ok_hm_set: "hashmap_ok m \<Longrightarrow> hashmap_ok (hm_set k v m)"
  by (simp add: hashmap_ok_def hm_set_def distinct_update)

lemma contains_member: "(k, v) \<in> set m \<Longrightarrow> contains m k"
  by (metis contains_def fst_conv image_eqI map_of_eq_None_iff)

lemma contains_erase_same [simp]: "\<not> contains (erase k m) k"
  by (simp add: contains_def)

lemma contains_erase_other: "k' \<noteq> k \<Longrightarrow> contains (erase k m) k' = contains m k'"
  by (simp add: contains_def)

lemma contains_erase_imp: "contains (erase k m) k' \<Longrightarrow> contains m k'"
  by (cases "k' = k") (simp_all add: contains_erase_other)

lemma contains_hm_set: "contains (hm_set k v m) k' \<longleftrightarrow> k' = k \<or> contains m k'"
  by (cases "k' = k") (simp_all add: contains_def)

lemma hashmap_ok_erase: "hashmap_ok m \<Longrightarrow> hashmap_ok (erase k m)"
  by (simp add: hashmap_ok_def erase_def distinct_delete)

lemma in_hm_setE:
  "x \<in> set (hm_set k v m) \<Longrightarrow> (x = (k, v) \<Longrightarrow> R) \<Longrightarrow> (x \<in> set m \<Longrightarrow> R) \<Longrightarrow> R"
  using set_hm_set[of x k v m] by blast

lemma erase_Nil [simp]: "erase k [] = []"
  by (simp add: erase_def)

lemma find_in: "find P xs = Some x \<Longrightarrow> x \<in> set xs"
  by (induction xs) (auto split: if_splits)

lemma getExecutor_in: "getExecutor k f = Some e \<Longrightarrow> (k, e) \<in> set (executors f)"
  by (simp add: getExecutor_def map_of_SomeD)

lemma getExecutor_task_in: "getExecutor_task t f = Some (k, e) \<Longrightarrow> (k, e) \<in> set (executors f)"
  by (simp add: getExecutor_task_def find_in)


subsection \<open>The scenarios, field by field\<close>

lemma update_of_simps [simp]:
  "su_framework_id (update_of t st n) = ''f1''"
  "ts_task_id (su_status (update_of t st n)) = t"
  "ts_state (su_status (update_of t st n)) = st"
  by (simp_all add: update_of_def)

lemma slave_running_simps:
  "getFramework ''f1'' slave_running = Some framework_running"
  "master slave_running = ''master@host''"
  "f_id framework_running = ''f1''"
  "f_info framework_running = finfo1"
  "executors framework_running = [(''e1'', executor_running)]"
  "updates framework_running = []"
  "e_info executor_running = einfo1"
  "e_resources executor_running = 3"
  "e_pid executor_running = ''executor@host''"
  "launchedTasks executor_running = [(''t1'', launched1), (''t2'', launched2)]"
  "queuedTasks executor_running = []"
  "t_resources launched1 = 1"
  by (simp_all add: getFramework_def slave_running_def slave_empty_def framework_running_def
        executor_running_def launched1_def)


subsection \<open>Working directories\<close>

lemma probe_least:
  assumes "n < INT_MAX"
    and "opendir (dir @ string_of_nat n) = ENOENT"
    and "\<forall>i. k \<le> i \<and> i < n \<longrightarrow> opendir (dir @ string_of_nat i) \<noteq> ENOENT"
    and "k \<le> n"
  shows "probe opendir dir k = dir @ string_of_nat n"
  using assms
proof (induction opendir dir k rule: probe.induct)
  case (1 opendir dir i)
  show ?case
  proof (cases "i = n")
    case True
    then show ?thesis using 1 by (simp add: probe.simps)
  next
    case False
    then have "i < n" using 1 by simp
    then show ?thesis using 1 False
      by (subst probe.simps) auto
  qed
qed

text \<open>
  C10, as amended. The path that \<^verbatim>\<open>getUniqueWorkDirectory\<close> returns is
  \<^verbatim>\<open><base>/work/slave-<slave_id>/fw-<frameworkId>-<executorId>/<N>\<close>: \<^verbatim>\<open><base>\<close> is the
  configured \<^verbatim>\<open>work_dir\<close>, else the configured \<^verbatim>\<open>home\<close>, else \<^verbatim>\<open>.\<close>, the component \<^verbatim>\<open>work\<close> is
  always appended to it, and \<open>N\<close> is the smallest non-negative integer below \<^verbatim>\<open>INT_MAX\<close> for
  which \<^verbatim>\<open>opendir\<close> on the path fails with \<^verbatim>\<open>ENOENT\<close>, whenever there is one.
\<close>

theorem getUniqueWorkDirectory_least:
  assumes "base = (case map_of cf ''work_dir'' of
                     Some w \<Rightarrow> w
                   | None \<Rightarrow> (case map_of cf ''home'' of Some h \<Rightarrow> h | None \<Rightarrow> ''.''))"
    and "dir = base @ ''/work/slave-'' @ slaveId @ ''/fw-'' @ frameworkId @ ''-'' @ executorId @ ''/''"
    and "n < INT_MAX"
    and "opendir (dir @ string_of_nat n) = ENOENT"
    and "\<forall>i. i < n \<longrightarrow> opendir (dir @ string_of_nat i) \<noteq> ENOENT"
  shows "getUniqueWorkDirectory opendir cf slaveId frameworkId executorId
           = dir @ string_of_nat n"
proof -
  have "probe opendir dir 0 = dir @ string_of_nat n"
    using assms(3-5) by (intro probe_least) auto
  then show ?thesis
    using assms(1,2)
    by (auto simp: getUniqueWorkDirectory_def contains_def conf_get_def Let_def
             split: option.splits)
qed

theorem getUniqueWorkDirectory_least_witness:
  "getUniqueWorkDirectory first_taken [(''work_dir'', ''/tmp'')] ''s1'' ''f1'' ''e1''
     = ''/tmp/work/slave-s1/fw-f1-e1/1''"
  using getUniqueWorkDirectory_least
          [of "''/tmp''" "[(''work_dir'', ''/tmp'')]" "''/tmp/work/slave-s1/fw-f1-e1/''"
              "''s1''" "''f1''" "''e1''" 1 first_taken]
  by (simp add: INT_MAX_def string_of_nat.simps digit_char_def first_taken_def)

text \<open>
  C10, as stated, fails: with \<^verbatim>\<open>work_dir\<close> set to \<^verbatim>\<open>/tmp\<close> and no directory there yet, the
  result lies under \<^verbatim>\<open>/tmp/work\<close>, not under \<^verbatim>\<open>/tmp\<close>.
\<close>

theorem getUniqueWorkDirectory_counterexample:
  "getUniqueWorkDirectory no_directories [(''work_dir'', ''/tmp'')] ''s1'' ''f1'' ''e1''
     = ''/tmp/work/slave-s1/fw-f1-e1/0''
   \<and> getUniqueWorkDirectory no_directories [(''work_dir'', ''/tmp'')] ''s1'' ''f1'' ''e1''
     \<noteq> ''/tmp/slave-s1/fw-f1-e1/0''"
  by (simp add: getUniqueWorkDirectory_def contains_def conf_get_def probe.simps INT_MAX_def
        string_of_nat.simps digit_char_def no_directories_def)

lemma slave_queued_simps:
  "getFramework ''f1'' slave_queued = Some framework_queued"
  "master slave_queued = ''master@host''"
  "slave_id slave_queued = ''s1''"
  "hostname (info slave_queued) = ''host''"
  "f_id framework_queued = ''f1''"
  "f_info framework_queued = finfo1"
  "f_pid framework_queued = ''scheduler@host''"
  "executors framework_queued = [(''e1'', executor_queued)]"
  "updates framework_queued = []"
  "e_id executor_queued = ''e1''"
  "e_frameworkId executor_queued = ''f1''"
  "e_info executor_queued = einfo1"
  "e_resources executor_queued = 0"
  "e_pid executor_queued = []"
  "launchedTasks executor_queued = []"
  "queuedTasks executor_queued = [(''t1'', task1), (''t2'', task2)]"
  by (simp_all add: getFramework_def slave_queued_def slave_empty_def framework_queued_def
        executor_queued_def)

subsection \<open>Status updates from executors\<close>

lemma statusUpdate_found:
  assumes "getFramework (su_framework_id u) s = Some framework"
    and "getExecutor_task (ts_task_id (su_status u)) framework = Some (k, executor)"
  shows "statusUpdate now u s =
     (let tid = ts_task_id (su_status u); st = ts_state (su_status u);
          e1 = updateTaskState tid st executor;
          e2 = (if terminal st then removeTask tid e1 else e1)
      in (put_framework (su_framework_id u)
            ((put_executor k e2 framework)\<lparr> updates :=
               hm_set (now + 10) (hm_set tid u (bucket_at (updates framework) (now + 10)))
                 (updates framework) \<rparr>) s,
          (if terminal st
           then [ResourcesChanged (f_id framework) (f_info framework) (e_info e2) (e_resources e2)]
           else []) @ [Send (master s) (S2M_STATUS_UPDATE u True)]))"
  using assms by (simp add: statusUpdate_def Let_def STATUS_UPDATE_RETRY_INTERVAL_def)

lemma statusUpdate_dropped:
  assumes "getFramework (su_framework_id u) s = None
           \<or> (\<exists>f. getFramework (su_framework_id u) s = Some f
                   \<and> getExecutor_task (ts_task_id (su_status u)) f = None)"
  shows "statusUpdate now u s = (s, [])"
  using assms by (auto simp: statusUpdate_def Let_def)

text \<open>
  C1. When the framework of a status update exists and an executor of it holds the task id,
  \<^verbatim>\<open>statusUpdate\<close>
  \<^item> leaves the launched task with the state of the update, or, when that state is one of
    \<^verbatim>\<open>FINISHED\<close>, \<^verbatim>\<open>FAILED\<close>, \<^verbatim>\<open>KILLED\<close>, \<^verbatim>\<open>LOST\<close>, without the task in \<^verbatim>\<open>launchedTasks\<close>;
  \<^item> in the terminal case calls \<^verbatim>\<open>resourcesChanged\<close> with the executor's resources less those
    of the task, and in every case then sends the update to the master with the reliable
    flag set, and does nothing else to the outside;
  \<^item> stores the update in the framework's \<^verbatim>\<open>updates\<close> under the deadline \<open>now + 10\<close> and the
    task id.
\<close>

theorem statusUpdate_valid:
  fixes s :: "'r::minus Slave"
  assumes "getFramework (su_framework_id u) s = Some framework"
    and "getExecutor_task (ts_task_id (su_status u)) framework = Some (k, executor)"
    and "statusUpdate now u s = (s', fx)"
    and "tid = ts_task_id (su_status u)" and "st = ts_state (su_status u)"
    and "fid = su_framework_id u"
  shows "launched_task fid k tid s' =
           (if st \<in> {TASK_FINISHED, TASK_FAILED, TASK_KILLED, TASK_LOST} then None
            else map_option (\<lambda>task. task\<lparr> t_state := st \<rparr>)
                   (map_of (launchedTasks executor) tid))
       \<and> fx = (if st \<in> {TASK_FINISHED, TASK_FAILED, TASK_KILLED, TASK_LOST}
                then [ResourcesChanged (f_id framework) (f_info framework) (e_info executor)
                        (case map_of (launchedTasks executor) tid of
                           None \<Rightarrow> e_resources executor
                         | Some task \<Rightarrow> e_resources executor - t_resources task)]
                else [])
               @ [Send (master s) (S2M_STATUS_UPDATE u True)]
       \<and> stored_update fid (now + 10) tid s' = Some u"
proof -
  note r = assms(3)[unfolded statusUpdate_found[OF assms(1,2)] Let_def, simplified,
                    folded assms(4,5,6)]
  have s': "s' = put_framework fid
             ((put_executor k
                 (if terminal st then removeTask tid (updateTaskState tid st executor)
                  else updateTaskState tid st executor) framework)\<lparr> updates :=
                hm_set (now + 10) (hm_set tid u (bucket_at (updates framework) (now + 10)))
                  (updates framework) \<rparr>) s"
    using r by auto
  have "launched_task fid k tid s' =
           (if st \<in> {TASK_FINISHED, TASK_FAILED, TASK_KILLED, TASK_LOST} then None
            else map_option (\<lambda>task. task\<lparr> t_state := st \<rparr>)
                   (map_of (launchedTasks executor) tid))"
    unfolding s' terminal_iff[symmetric]
    by (simp add: launched_task_def executor_at_def getExecutor_def put_executor_def
          updateTaskState_launched)
  moreover have "fx = (if st \<in> {TASK_FINISHED, TASK_FAILED, TASK_KILLED, TASK_LOST}
                then [ResourcesChanged (f_id framework) (f_info framework) (e_info executor)
                        (case map_of (launchedTasks executor) tid of
                           None \<Rightarrow> e_resources executor
                         | Some task \<Rightarrow> e_resources executor - t_resources task)]
                else [])
               @ [Send (master s) (S2M_STATUS_UPDATE u True)]"
    using r unfolding terminal_iff[symmetric]
    by (auto simp: removeTask_resources updateTaskState_launched split: option.splits)
  moreover have "stored_update fid (now + 10) tid s' = Some u"
    unfolding s' by (simp add: stored_update_def)
  ultimately show ?thesis by simp
qed

theorem statusUpdate_valid_witness:
  "launched_task ''f1'' ''e1'' ''t1''
       (fst (statusUpdate 5 (update_of ''t1'' TASK_FINISHED 5) slave_running)) = None
   \<and> snd (statusUpdate 5 (update_of ''t1'' TASK_FINISHED 5) slave_running)
       = [ResourcesChanged ''f1'' finfo1 einfo1 2,
          Send ''master@host'' (S2M_STATUS_UPDATE (update_of ''t1'' TASK_FINISHED 5) True)]
   \<and> stored_update ''f1'' 15 ''t1''
       (fst (statusUpdate 5 (update_of ''t1'' TASK_FINISHED 5) slave_running))
       = Some (update_of ''t1'' TASK_FINISHED 5)"
proof -
  have h1: "getFramework (su_framework_id (update_of ''t1'' TASK_FINISHED 5)) slave_running
              = Some framework_running"
    by (simp add: slave_running_simps)
  have h2: "getExecutor_task (ts_task_id (su_status (update_of ''t1'' TASK_FINISHED 5)))
              framework_running = Some (''e1'', executor_running)"
    by (simp add: getExecutor_task_def contains_def slave_running_simps)
  have h3: "statusUpdate 5 (update_of ''t1'' TASK_FINISHED 5) slave_running
              = (fst (statusUpdate 5 (update_of ''t1'' TASK_FINISHED 5) slave_running),
                 snd (statusUpdate 5 (update_of ''t1'' TASK_FINISHED 5) slave_running))"
    by simp
  show ?thesis
    using statusUpdate_valid [OF h1 h2 h3 refl refl refl]
    by (simp add: slave_running_simps)
qed

text \<open>
  C2, as amended. Whatever the status update, the only message that \<^verbatim>\<open>statusUpdate\<close> sends is
  the reliable \<^verbatim>\<open>S2M_STATUS_UPDATE\<close> to the master: nothing goes to the executor, and so no
  acknowledgement.
\<close>

theorem statusUpdate_only_master:
  fixes s :: "'r::minus Slave"
  assumes "Send to msg \<in> set (snd (statusUpdate now u s))"
  shows "to = master s \<and> msg = S2M_STATUS_UPDATE u True"
proof (cases "getFramework (su_framework_id u) s")
  case None
  then show ?thesis using assms statusUpdate_dropped[of u s now] by simp
next
  case (Some f)
  show ?thesis
  proof (cases "getExecutor_task (ts_task_id (su_status u)) f")
    case None
    then show ?thesis
      using assms \<open>getFramework (su_framework_id u) s = Some f\<close>
        statusUpdate_dropped[of u s now] by simp
  next
    case (Some ke)
    obtain k e where ke: "ke = (k, e)" by (cases ke)
    show ?thesis
      using assms
        statusUpdate_found[OF \<open>getFramework (su_framework_id u) s = Some f\<close> Some[unfolded ke],
          of now]
      by (auto simp: Let_def split: if_splits)
  qed
qed

theorem statusUpdate_only_master_witness:
  "Send ''master@host'' (S2M_STATUS_UPDATE (update_of ''t1'' TASK_RUNNING 5) True)
     \<in> set (snd (statusUpdate 5 (update_of ''t1'' TASK_RUNNING 5) slave_running))
   \<and> ''master@host'' = master slave_running"
proof -
  have h1: "getFramework (su_framework_id (update_of ''t1'' TASK_RUNNING 5)) slave_running
              = Some framework_running"
    by (simp add: slave_running_simps)
  have h2: "getExecutor_task (ts_task_id (su_status (update_of ''t1'' TASK_RUNNING 5)))
              framework_running = Some (''e1'', executor_running)"
    by (simp add: getExecutor_task_def contains_def slave_running_simps)
  have m: "Send ''master@host'' (S2M_STATUS_UPDATE (update_of ''t1'' TASK_RUNNING 5) True)
     \<in> set (snd (statusUpdate 5 (update_of ''t1'' TASK_RUNNING 5) slave_running))"
    by (simp add: statusUpdate_found[OF h1 h2] Let_def terminal_def slave_running_simps)
  show ?thesis
    using statusUpdate_only_master[OF m] m by simp
qed

text \<open>
  C2, as stated, fails. Framework \<^verbatim>\<open>f1\<close> exists, its registered executor \<^verbatim>\<open>e1\<close> holds \<^verbatim>\<open>t1\<close>;
  the update \<^verbatim>\<open>t1 = RUNNING\<close> makes the slave send one message, to the master, and no
  \<^verbatim>\<open>S2E_STATUS_UPDATE_ACK\<close> to the executor.
\<close>

theorem statusUpdate_ack_counterexample:
  "getFramework ''f1'' slave_running = Some framework_running
   \<and> getExecutor_task ''t1'' framework_running = Some (''e1'', executor_running)
   \<and> e_pid executor_running = ''executor@host''
   \<and> snd (statusUpdate 5 (update_of ''t1'' TASK_RUNNING 5) slave_running)
       = [Send ''master@host'' (S2M_STATUS_UPDATE (update_of ''t1'' TASK_RUNNING 5) True)]
   \<and> Send ''executor@host'' (S2E_STATUS_UPDATE_ACK ''f1'' ''s1'' ''t1'')
       \<notin> set (snd (statusUpdate 5 (update_of ''t1'' TASK_RUNNING 5) slave_running))"
proof -
  have h1: "getFramework (su_framework_id (update_of ''t1'' TASK_RUNNING 5)) slave_running
              = Some framework_running"
    by (simp add: slave_running_simps)
  have h2: "getExecutor_task (ts_task_id (su_status (update_of ''t1'' TASK_RUNNING 5)))
              framework_running = Some (''e1'', executor_running)"
    by (simp add: getExecutor_task_def contains_def slave_running_simps)
  show ?thesis
    using h1 h2
    by (simp add: statusUpdate_found[OF h1 h2] Let_def terminal_def slave_running_simps)
qed

text \<open>
  C8 at two inputs: an update for a framework the slave does not know, and an update for a
  task that no executor of the framework holds. Both are dropped with the slave unchanged,
  so \<^verbatim>\<open>statistics.invalidStatusUpdates\<close> keeps the value 0 it had.
\<close>

theorem statusUpdate_invalid_not_counted:
  "statusUpdate 5 (update_of ''t1'' TASK_RUNNING 5) slave_empty = (slave_empty, [])
   \<and> statusUpdate 5 (update_of ''t9'' TASK_RUNNING 5) slave_running = (slave_running, [])
   \<and> invalidStatusUpdates (statistics slave_empty) = 0
   \<and> invalidStatusUpdates (statistics slave_running) = 0"
proof -
  have 1: "getFramework (su_framework_id (update_of ''t1'' TASK_RUNNING 5)) slave_empty = None"
    by (simp add: getFramework_def slave_empty_def)
  have 2: "getFramework (su_framework_id (update_of ''t9'' TASK_RUNNING 5)) slave_running
             = Some framework_running"
    by (simp add: slave_running_simps)
  have 3: "getExecutor_task (ts_task_id (su_status (update_of ''t9'' TASK_RUNNING 5)))
             framework_running = None"
    by (simp add: getExecutor_task_def contains_def slave_running_simps)
  show ?thesis
    using 1 2 3
    by (simp add: statusUpdate_dropped slave_running_def slave_empty_def)
qed

subsection \<open>Launching tasks\<close>

lemma runTask_new_executor:
  fixes s :: "'r::{plus,zero} Slave"
  assumes "framework = (case getFramework frameworkId s of
                          None \<Rightarrow> new_Framework frameworkId frameworkInfo pid
                        | Some f \<Rightarrow> f)"
    and "getExecutor (case td_executor task of
                        Some einfo \<Rightarrow> executor_id einfo
                      | None \<Rightarrow> executor_id (fi_executor (f_info framework))) framework = None"
  shows "runTask opendir launched unconstructed frameworkInfo frameworkId pid task s
           = Inl NullPointerDereference"
  using assms
  by (cases "getFramework frameworkId s"; cases "td_executor task")
     (simp_all add: runTask_def Let_def deref_def)

text \<open>
  C3 at the first task of a framework: the slave knows no framework, the task names no
  executor, so the framework's default executor \<^verbatim>\<open>e1\<close> is chosen and has no record.
  \<^verbatim>\<open>runTask\<close> does not complete: it reads \<^verbatim>\<open>executor->id\<close> through the \<^verbatim>\<open>NULL\<close> pointer before an
  executor is created, a task queued or the isolation module called.
\<close>

theorem runTask_new_executor_fails:
  "runTask no_directories 4242 [] finfo1 ''f1'' ''scheduler@host'' task1 slave_empty
     = Inl NullPointerDereference"
  by (simp add: runTask_def Let_def deref_def getFramework_def slave_empty_def
        new_Framework_def getExecutor_def task1_def put_framework_def)

subsection \<open>Killing tasks\<close>

lemma killTask_unregistered:
  fixes s :: "'r::minus Slave"
  assumes "getFramework fid s = Some f" "getExecutor_task tid f = Some (k, e)" "e_pid e = []"
  shows "killTask now fid tid s =
           (put_framework fid (put_executor k (removeTask tid e) f) s,
            [ResourcesChanged (f_id f) (f_info f) (e_info e) (e_resources (removeTask tid e)),
             Send (master s)
               (S2M_STATUS_UPDATE
                  \<lparr> su_framework_id = f_id f, su_executor_id = Some (e_id e),
                     su_slave_id = slave_id s,
                     su_status = \<lparr> ts_task_id = tid, ts_state = TASK_KILLED, ts_data = [] \<rparr>,
                     su_timestamp = now, su_sequence = 0 \<rparr>
                  False)])"
  using assms by (simp add: killTask_def Let_def)

text \<open>
  C4. \<^verbatim>\<open>killTask\<close> by cases.
  \<^item> Unknown framework, or no executor of the framework holds the task id in its queued or
    launched tasks: one unreliable \<^verbatim>\<open>TASK_LOST\<close> update to the master, the slave unchanged.
  \<^item> The owning executor has the empty pid: afterwards the task id is neither queued nor
    launched there, \<^verbatim>\<open>resourcesChanged\<close> is called with the executor's resources less those of
    the task if it was launched, then one unreliable \<^verbatim>\<open>TASK_KILLED\<close> update goes to the master;
    nothing is sent to the executor.
  \<^item> The owning executor is registered: one \<^verbatim>\<open>S2E_KILL_TASK\<close> to the executor, the slave
    unchanged.
\<close>

theorem killTask_cases:
  fixes s :: "'r::minus Slave"
  shows "(getFramework fid s = None \<longrightarrow>
            killTask now fid tid s =
              (s, [Send (master s)
                     (S2M_STATUS_UPDATE
                        \<lparr> su_framework_id = fid, su_executor_id = None,
                           su_slave_id = slave_id s,
                           su_status = \<lparr> ts_task_id = tid, ts_state = TASK_LOST, ts_data = [] \<rparr>,
                           su_timestamp = now, su_sequence = - 1 \<rparr> False)]))
       \<and> (\<forall>f. getFramework fid s = Some f \<and> getExecutor_task tid f = None \<longrightarrow>
            killTask now fid tid s =
              (s, [Send (master s)
                     (S2M_STATUS_UPDATE
                        \<lparr> su_framework_id = f_id f, su_executor_id = None,
                           su_slave_id = slave_id s,
                           su_status = \<lparr> ts_task_id = tid, ts_state = TASK_LOST, ts_data = [] \<rparr>,
                           su_timestamp = now, su_sequence = - 1 \<rparr> False)]))
       \<and> (\<forall>f k e. getFramework fid s = Some f \<and> getExecutor_task tid f = Some (k, e)
                   \<and> e_pid e = [] \<longrightarrow>
            queued_task fid k tid (fst (killTask now fid tid s)) = None
            \<and> launched_task fid k tid (fst (killTask now fid tid s)) = None
            \<and> snd (killTask now fid tid s) =
                [ResourcesChanged (f_id f) (f_info f) (e_info e)
                   (case map_of (launchedTasks e) tid of
                      None \<Rightarrow> e_resources e
                    | Some task \<Rightarrow> e_resources e - t_resources task),
                 Send (master s)
                   (S2M_STATUS_UPDATE
                      \<lparr> su_framework_id = f_id f, su_executor_id = Some (e_id e),
                         su_slave_id = slave_id s,
                         su_status = \<lparr> ts_task_id = tid, ts_state = TASK_KILLED, ts_data = [] \<rparr>,
                         su_timestamp = now, su_sequence = 0 \<rparr>
                      False)])
       \<and> (\<forall>f k e. getFramework fid s = Some f \<and> getExecutor_task tid f = Some (k, e)
                   \<and> e_pid e \<noteq> [] \<longrightarrow>
            killTask now fid tid s = (s, [Send (e_pid e) (S2E_KILL_TASK fid tid)]))"
proof (intro conjI allI impI)
  assume "getFramework fid s = None"
  then show "killTask now fid tid s =
              (s, [Send (master s)
                     (S2M_STATUS_UPDATE
                        \<lparr> su_framework_id = fid, su_executor_id = None,
                           su_slave_id = slave_id s,
                           su_status = \<lparr> ts_task_id = tid, ts_state = TASK_LOST, ts_data = [] \<rparr>,
                           su_timestamp = now, su_sequence = - 1 \<rparr> False)])"
    by (simp add: killTask_def)
next
  fix f assume "getFramework fid s = Some f \<and> getExecutor_task tid f = None"
  then show "killTask now fid tid s =
              (s, [Send (master s)
                     (S2M_STATUS_UPDATE
                        \<lparr> su_framework_id = f_id f, su_executor_id = None,
                           su_slave_id = slave_id s,
                           su_status = \<lparr> ts_task_id = tid, ts_state = TASK_LOST, ts_data = [] \<rparr>,
                           su_timestamp = now, su_sequence = - 1 \<rparr> False)])"
    by (simp add: killTask_def)
next
  fix f k e
  assume a: "getFramework fid s = Some f \<and> getExecutor_task tid f = Some (k, e) \<and> e_pid e = []"
  then have r: "killTask now fid tid s =
           (put_framework fid (put_executor k (removeTask tid e) f) s,
            [ResourcesChanged (f_id f) (f_info f) (e_info e) (e_resources (removeTask tid e)),
             Send (master s)
               (S2M_STATUS_UPDATE
                  \<lparr> su_framework_id = f_id f, su_executor_id = Some (e_id e),
                     su_slave_id = slave_id s,
                     su_status = \<lparr> ts_task_id = tid, ts_state = TASK_KILLED, ts_data = [] \<rparr>,
                     su_timestamp = now, su_sequence = 0 \<rparr>
                  False)])"
    by (simp add: killTask_unregistered)
  show "queued_task fid k tid (fst (killTask now fid tid s)) = None"
    by (simp add: r queued_task_def executor_at_def)
  show "launched_task fid k tid (fst (killTask now fid tid s)) = None"
    by (simp add: r launched_task_def executor_at_def)
  show "snd (killTask now fid tid s) =
                [ResourcesChanged (f_id f) (f_info f) (e_info e)
                   (case map_of (launchedTasks e) tid of
                      None \<Rightarrow> e_resources e
                    | Some task \<Rightarrow> e_resources e - t_resources task),
                 Send (master s)
                   (S2M_STATUS_UPDATE
                      \<lparr> su_framework_id = f_id f, su_executor_id = Some (e_id e),
                         su_slave_id = slave_id s,
                         su_status = \<lparr> ts_task_id = tid, ts_state = TASK_KILLED, ts_data = [] \<rparr>,
                         su_timestamp = now, su_sequence = 0 \<rparr>
                      False)]"
    by (simp add: r removeTask_resources)
next
  fix f k e
  assume "getFramework fid s = Some f \<and> getExecutor_task tid f = Some (k, e) \<and> e_pid e \<noteq> []"
  then show "killTask now fid tid s = (s, [Send (e_pid e) (S2E_KILL_TASK fid tid)])"
    by (simp add: killTask_def)
qed

theorem killTask_cases_witness:
  "killTask 7 ''f1'' ''t1'' slave_empty
     = (slave_empty,
        [Send ''master@host''
           (S2M_STATUS_UPDATE \<lparr> su_framework_id = ''f1'', su_executor_id = None,
                                 su_slave_id = ''s1'',
                                 su_status = \<lparr> ts_task_id = ''t1'', ts_state = TASK_LOST, ts_data = [] \<rparr>,
                                 su_timestamp = 7, su_sequence = - 1 \<rparr> False)])
   \<and> killTask 7 ''f1'' ''t9'' slave_running
     = (slave_running,
        [Send ''master@host''
           (S2M_STATUS_UPDATE \<lparr> su_framework_id = ''f1'', su_executor_id = None,
                                 su_slave_id = ''s1'',
                                 su_status = \<lparr> ts_task_id = ''t9'', ts_state = TASK_LOST, ts_data = [] \<rparr>,
                                 su_timestamp = 7, su_sequence = - 1 \<rparr> False)])
   \<and> queued_task ''f1'' ''e1'' ''t1'' (fst (killTask 7 ''f1'' ''t1'' slave_queued)) = None
   \<and> snd (killTask 7 ''f1'' ''t1'' slave_queued)
     = [ResourcesChanged ''f1'' finfo1 einfo1 0,
        Send ''master@host''
          (S2M_STATUS_UPDATE
             \<lparr> su_framework_id = ''f1'', su_executor_id = Some ''e1'',
                su_slave_id = ''s1'',
                su_status = \<lparr> ts_task_id = ''t1'', ts_state = TASK_KILLED, ts_data = [] \<rparr>,
                su_timestamp = 7, su_sequence = 0 \<rparr> False)]
   \<and> killTask 7 ''f1'' ''t1'' slave_running
     = (slave_running, [Send ''executor@host'' (S2E_KILL_TASK ''f1'' ''t1'')])"
proof -
  have a: "getFramework ''f1'' slave_empty = None"
    by (simp add: getFramework_def slave_empty_def)
  have b: "getFramework ''f1'' slave_running = Some framework_running
           \<and> getExecutor_task ''t9'' framework_running = None"
    by (simp add: slave_running_simps getExecutor_task_def contains_def)
  have c: "getFramework ''f1'' slave_queued = Some framework_queued
           \<and> getExecutor_task ''t1'' framework_queued = Some (''e1'', executor_queued)
           \<and> e_pid executor_queued = []"
    by (simp add: slave_queued_simps getExecutor_task_def contains_def)
  have d: "getFramework ''f1'' slave_running = Some framework_running
           \<and> getExecutor_task ''t1'' framework_running = Some (''e1'', executor_running)
           \<and> e_pid executor_running \<noteq> []"
    by (simp add: slave_running_simps getExecutor_task_def contains_def)
  have ids: "master slave_empty = ''master@host''" "slave_id slave_empty = ''s1''"
    "slave_id slave_running = ''s1''" "slave_id slave_queued = ''s1''"
    by (simp_all add: slave_empty_def slave_running_def slave_queued_def)
  from killTask_cases[of "''f1''" slave_empty 7 "''t1''"] a
  have 1: "killTask 7 ''f1'' ''t1'' slave_empty
     = (slave_empty,
        [Send ''master@host''
           (S2M_STATUS_UPDATE \<lparr> su_framework_id = ''f1'', su_executor_id = None,
                                 su_slave_id = ''s1'',
                                 su_status = \<lparr> ts_task_id = ''t1'', ts_state = TASK_LOST, ts_data = [] \<rparr>,
                                 su_timestamp = 7, su_sequence = - 1 \<rparr> False)])"
    by (simp add: ids)
  from killTask_cases[of "''f1''" slave_running 7 "''t9''"] b
  have 2: "killTask 7 ''f1'' ''t9'' slave_running
     = (slave_running,
        [Send ''master@host''
           (S2M_STATUS_UPDATE \<lparr> su_framework_id = ''f1'', su_executor_id = None,
                                 su_slave_id = ''s1'',
                                 su_status = \<lparr> ts_task_id = ''t9'', ts_state = TASK_LOST, ts_data = [] \<rparr>,
                                 su_timestamp = 7, su_sequence = - 1 \<rparr> False)])"
    by (simp add: ids slave_running_simps)
  from killTask_cases[of "''f1''" slave_queued 7 "''t1''"] c
  have 3: "queued_task ''f1'' ''e1'' ''t1'' (fst (killTask 7 ''f1'' ''t1'' slave_queued)) = None
   \<and> snd (killTask 7 ''f1'' ''t1'' slave_queued)
     = [ResourcesChanged ''f1'' finfo1 einfo1 0,
        Send ''master@host''
          (S2M_STATUS_UPDATE
             \<lparr> su_framework_id = ''f1'', su_executor_id = Some ''e1'',
                su_slave_id = ''s1'',
                su_status = \<lparr> ts_task_id = ''t1'', ts_state = TASK_KILLED, ts_data = [] \<rparr>,
                su_timestamp = 7, su_sequence = 0 \<rparr> False)]"
    by (simp add: ids slave_queued_simps)
  from killTask_cases[of "''f1''" slave_running 7 "''t1''"] d
  have 4: "killTask 7 ''f1'' ''t1'' slave_running
     = (slave_running, [Send ''executor@host'' (S2E_KILL_TASK ''f1'' ''t1'')])"
    by (simp add: slave_running_simps)
  from 1 2 3 4 show ?thesis by simp
qed

subsection \<open>What every handler keeps true of the registry\<close>

lemma executors_okD: "executors_ok f \<Longrightarrow> (k, e) \<in> set (executors f) \<Longrightarrow> queue_ok e"
  by (auto simp: executors_ok_def)

lemma registry_okD: "registry_ok s \<Longrightarrow> getFramework k s = Some f \<Longrightarrow> executors_ok f"
  by (auto simp: registry_ok_def dest: getFramework_in)

lemma executors_ok_put:
  "executors_ok f \<Longrightarrow> queue_ok e \<Longrightarrow> executors_ok (put_executor k e f)"
  unfolding executors_ok_def put_executor_def
  by (auto elim!: in_hm_setE)

lemma executors_ok_same:
  "executors_ok f \<Longrightarrow> executors f' = executors f \<Longrightarrow> executors_ok f'"
  by (simp add: executors_ok_def)

lemma executors_ok_destroy: "executors_ok f \<Longrightarrow> executors_ok (destroyExecutor k f)"
  by (auto simp: executors_ok_def destroyExecutor_def dest: set_erase)

lemma registry_ok_put:
  "registry_ok s \<Longrightarrow> executors_ok f \<Longrightarrow> registry_ok (put_framework k f s)"
  unfolding registry_ok_def put_framework_def
  by (auto simp: hashmap_ok_hm_set elim!: in_hm_setE)

lemma registry_ok_erase:
  "registry_ok s \<Longrightarrow> registry_ok (s\<lparr> frameworks := erase k (frameworks s) \<rparr>)"
  by (auto simp: registry_ok_def hashmap_ok_erase dest: set_erase)

lemma registry_ok_frameworks_eq:
  "frameworks s' = frameworks s \<Longrightarrow> registry_ok s \<Longrightarrow> registry_ok s'"
  by (simp add: registry_ok_def)

lemma queue_ok_removeTask: "queue_ok e \<Longrightarrow> queue_ok (removeTask t e)"
  by (cases "map_of (launchedTasks e) t")
     (auto simp: queue_ok_def removeTask_def Let_def hashmap_ok_erase dest: set_erase)

lemma queue_ok_updateTaskState: "queue_ok e \<Longrightarrow> queue_ok (updateTaskState t st e)"
  by (auto simp: queue_ok_def updateTaskState_def split: option.splits)

lemma queue_ok_enqueue:
  "queue_ok e \<Longrightarrow>
   queue_ok (e\<lparr> queuedTasks := hm_set (td_task_id task) task (queuedTasks e) \<rparr>)"
  unfolding queue_ok_def
  by (auto simp: hashmap_ok_hm_set elim!: in_hm_setE)

lemma queue_ok_addTask:
  "queue_ok e \<Longrightarrow> e_pid e \<noteq> [] \<Longrightarrow> addTask task e = Inr e' \<Longrightarrow> queue_ok e'"
  by (auto simp: queue_ok_def addTask_def Let_def split: if_splits)

lemma flush_fields:
  "flush f ts e = Inr (e', fx) \<Longrightarrow> e_pid e' = e_pid e \<and> queuedTasks e' = queuedTasks e"
proof (induction ts arbitrary: e fx)
  case Nil
  then show ?case by simp
next
  case (Cons task rest)
  from Cons.prems obtain e1 fx1 where
    a: "addTask task e = Inr e1" and r: "flush f rest e1 = Inr (e', fx1)"
    by (auto split: sum.splits)
  have "e_pid e1 = e_pid e \<and> queuedTasks e1 = queuedTasks e"
    using a by (auto simp: addTask_def Let_def split: if_splits)
  then show ?case using Cons.IH[OF r] by simp
qed

lemma registry_ok_statusUpdate:
  fixes s :: "'r::minus Slave"
  assumes "registry_ok s"
  shows "registry_ok (fst (statusUpdate now u s))"
proof (cases "getFramework (su_framework_id u) s")
  case None
  then show ?thesis using assms statusUpdate_dropped[of u s now] by simp
next
  case (Some f)
  show ?thesis
  proof (cases "getExecutor_task (ts_task_id (su_status u)) f")
    case None
    then show ?thesis using assms Some statusUpdate_dropped[of u s now] by simp
  next
    case (Some ke)
    obtain k e where ke: "ke = (k, e)" by (cases ke)
    note fw = \<open>getFramework (su_framework_id u) s = Some f\<close>
    have fo: "executors_ok f" using registry_okD[OF assms fw] .
    have qe: "queue_ok e" using executors_okD[OF fo getExecutor_task_in[OF Some[unfolded ke]]] .
    let ?e2 = "if terminal (ts_state (su_status u))
               then removeTask (ts_task_id (su_status u))
                      (updateTaskState (ts_task_id (su_status u)) (ts_state (su_status u)) e)
               else updateTaskState (ts_task_id (su_status u)) (ts_state (su_status u)) e"
    have q2: "queue_ok ?e2"
      using qe by (simp add: queue_ok_removeTask queue_ok_updateTaskState)
    have "executors_ok ((put_executor k ?e2 f)\<lparr> updates :=
               hm_set (now + 10)
                 (hm_set (ts_task_id (su_status u)) u (bucket_at (updates f) (now + 10)))
                 (updates f) \<rparr>)"
      by (rule executors_ok_same[OF executors_ok_put[OF fo q2, of k]]) simp
    then show ?thesis
      unfolding statusUpdate_found[OF fw Some[unfolded ke]] Let_def fst_conv
      by (rule registry_ok_put[OF assms])
  qed
qed

lemma registry_ok_ack:
  assumes "registry_ok s"
  shows "registry_ok (fst (statusUpdateAcknowledged sid fid tid s))"
proof (cases "getFramework fid s")
  case None
  then show ?thesis using assms by (simp add: statusUpdateAcknowledged_def)
next
  case (Some f)
  have "executors_ok (f\<lparr> updates := ack_scan tid (updates f) \<rparr>)"
    by (rule executors_ok_same[OF registry_okD[OF assms Some]]) simp
  then show ?thesis
    using Some registry_ok_put[OF assms] by (simp add: statusUpdateAcknowledged_def)
qed

lemma registry_ok_killTask:
  fixes s :: "'r::minus Slave"
  assumes "registry_ok s"
  shows "registry_ok (fst (killTask now fid tid s))"
proof (cases "getFramework fid s")
  case None
  then show ?thesis using assms by (simp add: killTask_def)
next
  case (Some f)
  show ?thesis
  proof (cases "getExecutor_task tid f")
    case None
    then show ?thesis using assms Some by (simp add: killTask_def)
  next
    case (Some ke)
    obtain k e where ke: "ke = (k, e)" by (cases ke)
    note fw = \<open>getFramework fid s = Some f\<close>
    have fo: "executors_ok f" using registry_okD[OF assms fw] .
    have qe: "queue_ok e" using executors_okD[OF fo getExecutor_task_in[OF Some[unfolded ke]]] .
    show ?thesis
    proof (cases "e_pid e = []")
      case True
      show ?thesis
        unfolding killTask_unregistered[OF fw Some[unfolded ke] True] fst_conv
        by (intro registry_ok_put[OF assms] executors_ok_put[OF fo] queue_ok_removeTask[OF qe])
    next
      case False
      then show ?thesis using assms fw Some ke by (simp add: killTask_def)
    qed
  qed
qed

lemma registry_ok_registerExecutor:
  fixes s :: "'r::plus Slave"
  assumes "registry_ok s" and "sender \<noteq> []"
    and "registerExecutor sender fid eid s = Inr (s', fx)"
  shows "registry_ok s'"
proof (cases "getFramework fid s")
  case None
  then show ?thesis using assms by (simp add: registerExecutor_def)
next
  case (Some f)
  show ?thesis
  proof (cases "getExecutor eid f")
    case None
    then show ?thesis using assms Some by (simp add: registerExecutor_def)
  next
    case (Some e)
    note fw = \<open>getFramework fid s = Some f\<close>
    have fo: "executors_ok f" using registry_okD[OF assms(1) fw] .
    show ?thesis
    proof (cases "e_pid e = []")
      case False
      then show ?thesis using assms fw Some by (simp add: registerExecutor_def)
    next
      case True
      from assms(3) obtain e1 fx1 where
        fl: "flush f (map snd (queuedTasks e)) (e\<lparr> e_pid := sender \<rparr>) = Inr (e1, fx1)"
        and s': "s' = put_framework fid (put_executor eid (e1\<lparr> queuedTasks := [] \<rparr>) f) s"
        using fw Some True
        by (auto simp: registerExecutor_def Let_def split: sum.splits)
      have "e_pid e1 = sender" using flush_fields[OF fl] by simp
      then have "queue_ok (e1\<lparr> queuedTasks := [] \<rparr>)"
        using assms(2) by (simp add: queue_ok_def hashmap_ok_def)
      then show ?thesis
        unfolding s' by (intro registry_ok_put[OF assms(1)] executors_ok_put[OF fo])
    qed
  qed
qed

lemma registry_ok_updateFramework:
  assumes "registry_ok s"
  shows "registry_ok (fst (updateFramework fid pid s))"
proof (cases "getFramework fid s")
  case None
  then show ?thesis using assms by (simp add: updateFramework_def)
next
  case (Some f)
  have "executors_ok (f\<lparr> f_pid := pid \<rparr>)"
    by (rule executors_ok_same[OF registry_okD[OF assms Some]]) simp
  then show ?thesis
    using Some registry_ok_put[OF assms] by (simp add: updateFramework_def)
qed

lemma registry_ok_removeFramework:
  assumes "registry_ok s"
  shows "registry_ok (fst (removeFramework f k s))"
  using registry_ok_erase[OF assms]
  by (simp add: removeFramework_def Let_def case_prod_unfold)

lemma registry_ok_killFramework:
  assumes "registry_ok s"
  shows "registry_ok (fst (killFramework fid s))"
  using assms registry_ok_removeFramework[OF assms]
  by (simp add: killFramework_def split: option.splits)

lemma registry_ok_executorExited:
  assumes "registry_ok s"
  shows "registry_ok (fst (executorExited fid eid result s))"
proof (cases "getFramework fid s")
  case None
  then show ?thesis using assms by (simp add: executorExited_def)
next
  case (Some f)
  show ?thesis
  proof (cases "getExecutor eid f")
    case None
    then show ?thesis using assms Some by (simp add: executorExited_def)
  next
    case (Some e)
    note fw = \<open>getFramework fid s = Some f\<close>
    let ?f1 = "destroyExecutor (e_id e) f"
    have 1: "registry_ok (put_framework fid ?f1 s)"
      by (intro registry_ok_put[OF assms] executors_ok_destroy registry_okD[OF assms fw])
    show ?thesis
      using 1 registry_ok_removeFramework[OF 1, of ?f1 True] fw Some
      by (simp add: executorExited_def removeExecutor_def Let_def case_prod_unfold)
  qed
qed

lemma registry_ok_runTask:
  fixes s :: "'r::{plus,zero} Slave"
  assumes "registry_ok s"
    and "runTask opendir launched unconstructed finfo fid pid task s = Inr (s', fx)"
  shows "registry_ok s'"
proof -
  define f0 :: "'r Framework" where "f0 = new_Framework fid finfo pid"
  define f where "f = (case getFramework fid s of None \<Rightarrow> f0 | Some f \<Rightarrow> f)"
  define s0 where
    "s0 = (case getFramework fid s of None \<Rightarrow> put_framework fid f0 s | Some f \<Rightarrow> s)"
  have f0_ok: "executors_ok f0" by (simp add: f0_def new_Framework_def executors_ok_def)
  have fo: "executors_ok f"
    using f0_ok registry_okD[OF assms(1)] by (auto simp: f_def split: option.splits)
  have r0: "registry_ok s0"
    using assms(1) registry_ok_put[OF assms(1) f0_ok] by (auto simp: s0_def split: option.splits)
  from assms(2) obtain eid ex ex' where
    s': "s' = put_framework fid (put_executor eid ex' f) s0"
    and g: "getExecutor eid f = Some ex"
    and c: "(e_pid ex = [] \<and> ex' = ex\<lparr> queuedTasks := hm_set (td_task_id task) task (queuedTasks ex) \<rparr>)
            \<or> (e_pid ex \<noteq> [] \<and> addTask task ex = Inr ex')"
    unfolding runTask_def Let_def deref_def f_def s0_def f0_def
    by (cases "getFramework fid s") (auto split: option.splits if_splits sum.splits)
  have qe: "queue_ok ex" using executors_okD[OF fo getExecutor_in[OF g]] .
  have "queue_ok ex'"
    using c qe queue_ok_enqueue[OF qe, of task] queue_ok_addTask[OF qe] by auto
  then show ?thesis
    unfolding s' by (intro registry_ok_put[OF r0] executors_ok_put[OF fo])
qed

lemma registry_ok_handle:
  fixes s :: "'r::{plus,minus,zero} Slave"
  assumes "registry_ok s" and "event_ok ev" and "handle now ev s = Inr (s', fx)"
  shows "registry_ok s'"
proof (cases ev)
  case (NewMasterDetected pid)
  then show ?thesis
    using assms by (auto simp: newMasterDetected_def Let_def registry_ok_def split: if_splits)
next
  case NoMasterDetected
  then show ?thesis using assms by (auto simp: noMasterDetected_def)
next
  case (RegisterReply x)
  then show ?thesis using assms by (auto simp: registerReply_def registry_ok_def)
next
  case (ReregisterReply x)
  then show ?thesis using assms by (auto simp: reregisterReply_def split: if_splits)
next
  case (RunTask opendir launched unconstructed finfo fid' pid task)
  then show ?thesis using assms registry_ok_runTask by auto
next
  case (KillTask fid' tid')
  then show ?thesis using assms registry_ok_killTask[OF assms(1), of now fid' tid'] by auto
next
  case (KillFramework fid')
  then show ?thesis using assms registry_ok_killFramework[OF assms(1), of fid'] by auto
next
  case (SchedulerMessage x1 x2 x3 x4)
  then show ?thesis
    using assms
    by (auto simp: schedulerMessage_def count_invalid_message_def count_valid_message_def
          registry_ok_def split: option.splits if_splits)
next
  case (UpdateFramework fid' pid)
  then show ?thesis using assms registry_ok_updateFramework[OF assms(1), of fid' pid] by auto
next
  case (StatusUpdateAck sid fid' tid')
  then show ?thesis using assms registry_ok_ack[OF assms(1), of sid fid' tid'] by auto
next
  case (RegisterExecutor sender fid' eid)
  then show ?thesis
    using assms registry_ok_registerExecutor[OF assms(1), of sender fid' eid s' fx]
    by (auto simp: event_ok_def)
next
  case (StatusUpdated u)
  then show ?thesis using assms registry_ok_statusUpdate[OF assms(1), of now u] by auto
next
  case (ExecutorMessage x1 x2 x3 x4)
  then show ?thesis
    using assms
    by (auto simp: executorMessage_def count_invalid_message_def count_valid_message_def
          registry_ok_def split: option.splits)
next
  case (Ping x)
  then show ?thesis using assms by (auto simp: ping_def)
next
  case Timeout
  then show ?thesis using assms by (auto simp: timeout_def)
next
  case (Exited x)
  then show ?thesis using assms by (auto simp: exited_def split: if_splits)
next
  case (ExecutorExited fid' eid result)
  then show ?thesis using assms registry_ok_executorExited[OF assms(1), of fid' eid result] by auto
qed

lemma registry_ok_run:
  fixes s :: "'r::{plus,minus,zero} Slave"
  assumes "registry_ok s"
    and "\<forall>(now, ev) \<in> set evs. event_ok ev"
    and "run evs s = Inr (s', fx)"
  shows "registry_ok s'"
  using assms
proof (induction evs arbitrary: s fx)
  case Nil
  then show ?case by simp
next
  case (Cons p evs)
  obtain now ev where p: "p = (now, ev)" by (cases p)
  from Cons.prems(3) obtain s1 fx1 fx2 where
    h: "handle now ev s = Inr (s1, fx1)" and r: "run evs s1 = Inr (s', fx2)"
    unfolding p by (auto split: sum.splits)
  have "event_ok ev" using Cons.prems(2) p by simp
  then have "registry_ok s1" using registry_ok_handle[OF Cons.prems(1) _ h] by simp
  moreover have "\<forall>(now, ev) \<in> set evs. event_ok ev" using Cons.prems(2) by simp
  ultimately show ?case using Cons.IH r by blast
qed

lemma registry_ok_empty: "frameworks s = [] \<Longrightarrow> registry_ok s"
  by (simp add: registry_ok_def hashmap_ok_def)

lemma registry_ok_queue:
  assumes "registry_ok s" and "getFramework fid s = Some f" and "getExecutor eid f = Some e"
    and "e_pid e = []"
  shows "distinct (map (\<lambda>(k, task). td_task_id task) (queuedTasks e))
       \<and> (\<forall>(k, task) \<in> set (queuedTasks e). \<not> contains (launchedTasks e) (td_task_id task))"
proof -
  have q: "queue_ok e"
    using executors_okD[OF registry_okD[OF assms(1,2)] getExecutor_in[OF assms(3)]] .
  have eq: "map (\<lambda>(k, task). td_task_id task) (queuedTasks e) = map fst (queuedTasks e)"
    using q by (auto simp: queue_ok_def)
  show ?thesis
    unfolding eq using q assms(4) by (simp add: queue_ok_def hashmap_ok_def contains_def)
qed

subsection \<open>Executors that register\<close>

text \<open>
  C7. When the framework is unknown, or it has no executor under the id, or that executor
  already has a pid, \<^verbatim>\<open>registerExecutor\<close> answers the sender with \<^verbatim>\<open>S2E_KILL_EXECUTOR\<close> and
  leaves the slave as it was.
\<close>

theorem registerExecutor_rejected:
  fixes s :: "'r::plus Slave"
  assumes "getFramework fid s = None
           \<or> (\<exists>f. getFramework fid s = Some f
                  \<and> (getExecutor eid f = None
                      \<or> (\<exists>e. getExecutor eid f = Some e \<and> e_pid e \<noteq> [])))"
  shows "registerExecutor sender fid eid s = Inr (s, [Send sender S2E_KILL_EXECUTOR])"
  using assms by (auto simp: registerExecutor_def)

theorem registerExecutor_rejected_witness:
  "registerExecutor ''executor@host'' ''f1'' ''e1'' slave_empty
     = Inr (slave_empty, [Send ''executor@host'' S2E_KILL_EXECUTOR])
   \<and> registerExecutor ''executor@host'' ''f1'' ''e2'' slave_queued
     = Inr (slave_queued, [Send ''executor@host'' S2E_KILL_EXECUTOR])
   \<and> registerExecutor ''other@host'' ''f1'' ''e1'' slave_running
     = Inr (slave_running, [Send ''other@host'' S2E_KILL_EXECUTOR])"
proof -
  have 1: "getFramework ''f1'' slave_empty = None"
    by (simp add: getFramework_def slave_empty_def)
  have 2: "getFramework ''f1'' slave_queued = Some framework_queued
           \<and> getExecutor ''e2'' framework_queued = None"
    by (simp add: slave_queued_simps getExecutor_def)
  have 3: "getFramework ''f1'' slave_running = Some framework_running
           \<and> getExecutor ''e1'' framework_running = Some executor_running
           \<and> e_pid executor_running \<noteq> []"
    by (simp add: slave_running_simps getExecutor_def)
  show ?thesis
    using registerExecutor_rejected[of "''f1''" slave_empty "''e1''" "''executor@host''"]
      registerExecutor_rejected[of "''f1''" slave_queued "''e2''" "''executor@host''"]
      registerExecutor_rejected[of "''f1''" slave_running "''e1''" "''other@host''"]
      1 2 3
    by blast
qed

lemma addTask_ok:
  "\<not> contains (launchedTasks e) (td_task_id task) \<Longrightarrow>
   addTask task e =
     Inr (e\<lparr> launchedTasks :=
               hm_set (td_task_id task)
                 \<lparr> t_name = td_name task, t_task_id = td_task_id task,
                   t_framework_id = e_frameworkId e, t_executor_id = e_id e,
                   t_slave_id = td_slave_id task, t_state = TASK_STARTING,
                   t_resources = td_resources task \<rparr> (launchedTasks e),
             e_resources := e_resources e + td_resources task \<rparr>)"
  by (simp add: addTask_def Let_def)

lemma flush_ok:
  fixes e :: "'r::plus Executor"
  assumes "distinct (map td_task_id ts)"
    and "\<forall>task \<in> set ts. \<not> contains (launchedTasks e) (td_task_id task)"
  shows "\<exists>e'. flush f ts e =
                 Inr (e', map (\<lambda>task. Send (e_pid e)
                                 (S2E_RUN_TASK (f_info f) (f_id f) (f_pid f) task)) ts)
             \<and> e_pid e' = e_pid e \<and> e_id e' = e_id e \<and> e_info e' = e_info e
             \<and> e_frameworkId e' = e_frameworkId e \<and> e_directory e' = e_directory e
             \<and> (\<forall>task \<in> set ts.
                   map_of (launchedTasks e') (td_task_id task) =
                     Some \<lparr> t_name = td_name task, t_task_id = td_task_id task,
                            t_framework_id = e_frameworkId e, t_executor_id = e_id e,
                            t_slave_id = td_slave_id task, t_state = TASK_STARTING,
                            t_resources = td_resources task \<rparr>)
             \<and> (\<forall>t. t \<notin> td_task_id ` set ts \<longrightarrow>
                   map_of (launchedTasks e') t = map_of (launchedTasks e) t)"
  using assms
proof (induction ts arbitrary: e)
  case Nil
  then show ?case by simp
next
  case (Cons task rest)
  let ?e1 = "e\<lparr> launchedTasks :=
               hm_set (td_task_id task)
                 \<lparr> t_name = td_name task, t_task_id = td_task_id task,
                   t_framework_id = e_frameworkId e, t_executor_id = e_id e,
                   t_slave_id = td_slave_id task, t_state = TASK_STARTING,
                   t_resources = td_resources task \<rparr> (launchedTasks e),
             e_resources := e_resources e + td_resources task \<rparr>"
  have a: "addTask task e = Inr ?e1"
    using Cons.prems(2) by (simp add: addTask_ok)
  have d: "distinct (map td_task_id rest)" using Cons.prems(1) by simp
  have n: "\<forall>t \<in> set rest. \<not> contains (launchedTasks ?e1) (td_task_id t)"
  proof
    fix t assume t: "t \<in> set rest"
    have "td_task_id task \<notin> td_task_id ` set rest" using Cons.prems(1) by auto
    with t have "td_task_id t \<noteq> td_task_id task" by (metis imageI)
    then show "\<not> contains (launchedTasks ?e1) (td_task_id t)"
      using Cons.prems(2) t by (simp add: contains_hm_set)
  qed
  from Cons.IH[OF d n] obtain e' where
    e': "flush f rest ?e1 =
           Inr (e', map (\<lambda>task. Send (e_pid ?e1)
                           (S2E_RUN_TASK (f_info f) (f_id f) (f_pid f) task)) rest)"
      "e_pid e' = e_pid ?e1" "e_id e' = e_id ?e1" "e_info e' = e_info ?e1"
      "e_frameworkId e' = e_frameworkId ?e1" "e_directory e' = e_directory ?e1"
      "\<forall>task \<in> set rest.
          map_of (launchedTasks e') (td_task_id task) =
            Some \<lparr> t_name = td_name task, t_task_id = td_task_id task,
                   t_framework_id = e_frameworkId ?e1, t_executor_id = e_id ?e1,
                   t_slave_id = td_slave_id task, t_state = TASK_STARTING,
                   t_resources = td_resources task \<rparr>"
      "\<forall>t. t \<notin> td_task_id ` set rest \<longrightarrow>
          map_of (launchedTasks e') t = map_of (launchedTasks ?e1) t"
    by blast
  have notin: "td_task_id task \<notin> td_task_id ` set rest"
    using Cons.prems(1) by auto
  show ?case
  proof (intro exI[of _ e'] conjI)
    show "flush f (task # rest) e =
            Inr (e', map (\<lambda>task. Send (e_pid e)
                            (S2E_RUN_TASK (f_info f) (f_id f) (f_pid f) task)) (task # rest))"
      using a e'(1) by simp
    show "\<forall>t \<in> set (task # rest).
            map_of (launchedTasks e') (td_task_id t) =
              Some \<lparr> t_name = td_name t, t_task_id = td_task_id t,
                     t_framework_id = e_frameworkId e, t_executor_id = e_id e,
                     t_slave_id = td_slave_id t, t_state = TASK_STARTING,
                     t_resources = td_resources t \<rparr>"
      using e'(7) e'(8) notin by auto
    show "\<forall>t. t \<notin> td_task_id ` set (task # rest) \<longrightarrow>
            map_of (launchedTasks e') t = map_of (launchedTasks e) t"
      using e'(8) by auto
  qed (use e' in simp_all)
qed

text \<open>
  The loop over the queue succeeds whenever the \<^verbatim>\<open>CHECK\<close> of \<^verbatim>\<open>addTask\<close> holds at each task: the
  queued tasks have distinct ids, none of them launched already.
\<close>

lemma registerExecutor_flushes:
  fixes s :: "'r::plus Slave"
  assumes "getFramework fid s = Some f"
    and "getExecutor eid f = Some e"
    and "e_pid e = []"
    and "distinct (map (\<lambda>(k, task). td_task_id task) (queuedTasks e))"
    and "\<forall>(k, task) \<in> set (queuedTasks e). \<not> contains (launchedTasks e) (td_task_id task)"
  shows "\<exists>s' e'.
           registerExecutor sender fid eid s =
             Inr (s',
                  ResourcesChanged (f_id f) (f_info f) (e_info e) (e_resources e)
                  # Send sender
                      (S2E_REGISTER_REPLY
                         \<lparr> ea_framework_id = f_id f, ea_executor_id = e_id e,
                           ea_slave_id = slave_id s, ea_hostname = hostname (info s),
                           ea_data = data (e_info e) \<rparr>)
                  # map (\<lambda>(k, task). Send sender
                                (S2E_RUN_TASK (f_info f) (f_id f) (f_pid f) task))
                        (queuedTasks e))
         \<and> executor_at fid eid s' = Some e'
         \<and> e_pid e' = sender
         \<and> queuedTasks e' = []
         \<and> (\<forall>(k, task) \<in> set (queuedTasks e).
               map_of (launchedTasks e') (td_task_id task) =
                 Some \<lparr> t_name = td_name task, t_task_id = td_task_id task,
                        t_framework_id = e_frameworkId e, t_executor_id = e_id e,
                        t_slave_id = td_slave_id task, t_state = TASK_STARTING,
                        t_resources = td_resources task \<rparr>)"
proof -
  let ?e0 = "e\<lparr> e_pid := sender \<rparr>"
  let ?ts = "map snd (queuedTasks e)"
  have d: "distinct (map td_task_id ?ts)"
    using assms(4) by (simp add: case_prod_unfold comp_def)
  have n: "\<forall>task \<in> set ?ts. \<not> contains (launchedTasks ?e0) (td_task_id task)"
    using assms(5) by auto
  from flush_ok[OF d n, of f] obtain e1 where
    e1: "flush f ?ts ?e0 =
           Inr (e1, map (\<lambda>task. Send (e_pid ?e0)
                           (S2E_RUN_TASK (f_info f) (f_id f) (f_pid f) task)) ?ts)"
      "e_pid e1 = e_pid ?e0"
      "\<forall>task \<in> set ?ts.
          map_of (launchedTasks e1) (td_task_id task) =
            Some \<lparr> t_name = td_name task, t_task_id = td_task_id task,
                   t_framework_id = e_frameworkId ?e0, t_executor_id = e_id ?e0,
                   t_slave_id = td_slave_id task, t_state = TASK_STARTING,
                   t_resources = td_resources task \<rparr>"
    by blast
  let ?e' = "e1\<lparr> queuedTasks := [] \<rparr>"
  let ?s' = "put_framework fid (put_executor eid ?e' f) s"
  have r: "registerExecutor sender fid eid s =
             Inr (?s',
                  ResourcesChanged (f_id f) (f_info f) (e_info e) (e_resources e)
                  # Send sender
                      (S2E_REGISTER_REPLY
                         \<lparr> ea_framework_id = f_id f, ea_executor_id = e_id e,
                           ea_slave_id = slave_id s, ea_hostname = hostname (info s),
                           ea_data = data (e_info e) \<rparr>)
                  # map (\<lambda>(k, task). Send sender
                                (S2E_RUN_TASK (f_info f) (f_id f) (f_pid f) task))
                        (queuedTasks e))"
    using assms(1-3) e1(1)
    by (simp add: registerExecutor_def Let_def case_prod_unfold comp_def)
  have x: "executor_at fid eid ?s' = Some ?e'"
    by (simp add: executor_at_def)
  show ?thesis
    apply (intro exI[of _ ?s'] exI[of _ ?e'] conjI)
    subgoal by (rule r)
    subgoal by (rule x)
    subgoal using e1(2) by simp
    subgoal by simp
    subgoal using e1(3) by auto
    done
qed

text \<open>
  C6. In a registry as the handlers keep it (\<open>registry_ok\<close>), when the framework exists and
  its executor under the id has the empty pid, \<^verbatim>\<open>registerExecutor\<close> completes. It calls
  \<^verbatim>\<open>resourcesChanged\<close>, then sends \<^verbatim>\<open>S2E_REGISTER_REPLY\<close> with framework id, executor id, slave
  id, hostname and the executor's data, then one \<^verbatim>\<open>S2E_RUN_TASK\<close> for each queued task in the
  order of the queue, all to the sender. Afterwards the executor has the sender as pid, an
  empty queue, and every queued task launched in state \<^verbatim>\<open>TASK_STARTING\<close>.
\<close>

theorem registerExecutor_accepted:
  fixes s :: "'r::plus Slave"
  assumes "registry_ok s"
    and "getFramework fid s = Some f"
    and "getExecutor eid f = Some e"
    and "e_pid e = []"
  shows "\<exists>s' e'.
           registerExecutor sender fid eid s =
             Inr (s',
                  ResourcesChanged (f_id f) (f_info f) (e_info e) (e_resources e)
                  # Send sender
                      (S2E_REGISTER_REPLY
                         \<lparr> ea_framework_id = f_id f, ea_executor_id = e_id e,
                           ea_slave_id = slave_id s, ea_hostname = hostname (info s),
                           ea_data = data (e_info e) \<rparr>)
                  # map (\<lambda>(k, task). Send sender
                                (S2E_RUN_TASK (f_info f) (f_id f) (f_pid f) task))
                        (queuedTasks e))
         \<and> executor_at fid eid s' = Some e'
         \<and> e_pid e' = sender
         \<and> queuedTasks e' = []
         \<and> (\<forall>(k, task) \<in> set (queuedTasks e).
               map_of (launchedTasks e') (td_task_id task) =
                 Some \<lparr> t_name = td_name task, t_task_id = td_task_id task,
                        t_framework_id = e_frameworkId e, t_executor_id = e_id e,
                        t_slave_id = td_slave_id task, t_state = TASK_STARTING,
                        t_resources = td_resources task \<rparr>)"
proof -
  from registry_ok_queue[OF assms]
  have d: "distinct (map (\<lambda>(k, task). td_task_id task) (queuedTasks e))"
    and n: "\<forall>(k, task) \<in> set (queuedTasks e).
              \<not> contains (launchedTasks e) (td_task_id task)"
    by simp_all
  show ?thesis by (rule registerExecutor_flushes[OF assms(2-4) d n])
qed

theorem registerExecutor_accepted_witness:
  "\<exists>s' e'.
     registerExecutor ''executor@host'' ''f1'' ''e1'' slave_queued =
       Inr (s',
            [ResourcesChanged ''f1'' finfo1 einfo1 0,
             Send ''executor@host''
               (S2E_REGISTER_REPLY
                  \<lparr> ea_framework_id = ''f1'', ea_executor_id = ''e1'', ea_slave_id = ''s1'',
                    ea_hostname = ''host'', ea_data = ''opaque'' \<rparr>),
             Send ''executor@host'' (S2E_RUN_TASK finfo1 ''f1'' ''scheduler@host'' task1),
             Send ''executor@host'' (S2E_RUN_TASK finfo1 ''f1'' ''scheduler@host'' task2)])
     \<and> executor_at ''f1'' ''e1'' s' = Some e'
     \<and> e_pid e' = ''executor@host''
     \<and> queuedTasks e' = []
     \<and> map_of (launchedTasks e') ''t1'' = Some launched1
     \<and> map_of (launchedTasks e') ''t2'' = Some launched2"
proof -
  have h1: "getFramework ''f1'' slave_queued = Some framework_queued"
    by (simp add: slave_queued_simps)
  have h2: "getExecutor ''e1'' framework_queued = Some executor_queued"
    by (simp add: getExecutor_def slave_queued_simps)
  have h3: "e_pid executor_queued = []"
    by (simp add: slave_queued_simps)
  have h0: "registry_ok slave_queued"
    by (simp add: registry_ok_def executors_ok_def queue_ok_def hashmap_ok_def
          slave_queued_def slave_empty_def framework_queued_def executor_queued_def
          task1_def task2_def)
  show ?thesis
    using registerExecutor_accepted[OF h0 h1 h2 h3, of "''executor@host''"]
    by (simp add: slave_queued_simps einfo1_def task1_def task2_def launched1_def launched2_def)
qed

subsection \<open>Acknowledgements from the master\<close>

lemma holding_Nil [simp]: "holding t [] = 0"
  by (simp add: holding_def)

lemma holding_Cons [simp]:
  "holding t ((d, b) # ups) = (if contains b t then Suc (holding t ups) else holding t ups)"
  by (simp add: holding_def)

lemma ack_scan_none: "holding t ups = 0 \<Longrightarrow> ack_scan t ups = ups"
  by (induction ups) (auto split: if_splits)

lemma ack_scan_some: "0 < holding t ups \<Longrightarrow> ack_scan t ups \<noteq> ups"
proof (induction ups)
  case Nil
  then show ?case by simp
next
  case (Cons p ups)
  obtain d b where p: "p = (d, b)" by (cases p)
  show ?case
  proof (cases "contains b t")
    case True
    then have "erase t b \<noteq> b" by (metis contains_erase_same)
    then show ?thesis using True p by simp
  next
    case False
    then show ?thesis using Cons p by simp
  qed
qed

lemma holding_ack_scan: "holding t (ack_scan t ups) = holding t ups - 1"
  by (induction ups) (auto split: if_splits)

lemma ack_scan_twice:
  "ack_scan t (ack_scan t ups) = ack_scan t ups \<longleftrightarrow> holding t ups \<le> 1"
proof
  assume "ack_scan t (ack_scan t ups) = ack_scan t ups"
  then have "\<not> 0 < holding t (ack_scan t ups)" using ack_scan_some by blast
  then show "holding t ups \<le> 1" by (simp add: holding_ack_scan)
next
  assume "holding t ups \<le> 1"
  then have "holding t (ack_scan t ups) = 0" by (simp add: holding_ack_scan)
  then show "ack_scan t (ack_scan t ups) = ack_scan t ups" by (rule ack_scan_none)
qed

lemma put_framework_twice [simp]:
  "put_framework k f (put_framework k f' s) = put_framework k f s"
  by (simp add: put_framework_def hm_set_def update_last)

text \<open>
  On any slave, reachable or not: handling the same \<^verbatim>\<open>StatusUpdateAcknowledged\<close> twice in a
  row leaves the slave as handling it once does exactly when at most one deadline bucket of
  the framework holds the task id beforehand (none when the framework is unknown). When two
  or more buckets hold it, the second acknowledgement erases one more stored update.
\<close>

lemma statusUpdateAcknowledged_twice:
  "statusUpdateAcknowledged slaveId fid tid (fst (statusUpdateAcknowledged slaveId fid tid s))
     = statusUpdateAcknowledged slaveId fid tid s
   \<longleftrightarrow> holding tid (buckets fid s) \<le> 1"
proof (cases "getFramework fid s")
  case None
  then show ?thesis by (simp add: statusUpdateAcknowledged_def buckets_def)
next
  case (Some f)
  let ?f1 = "f\<lparr> updates := ack_scan tid (updates f) \<rparr>"
  let ?f2 = "?f1\<lparr> updates := ack_scan tid (updates ?f1) \<rparr>"
  have 1: "statusUpdateAcknowledged slaveId fid tid s = (put_framework fid ?f1 s, [])"
    using Some by (simp add: statusUpdateAcknowledged_def)
  have 2: "statusUpdateAcknowledged slaveId fid tid (put_framework fid ?f1 s)
             = (put_framework fid ?f2 s, [])"
    by (simp add: statusUpdateAcknowledged_def)
  have "put_framework fid ?f2 s = put_framework fid ?f1 s
          \<longleftrightarrow> ack_scan tid (ack_scan tid (updates f)) = ack_scan tid (updates f)"
  proof
    assume "put_framework fid ?f2 s = put_framework fid ?f1 s"
    then have "getFramework fid (put_framework fid ?f2 s)
                 = getFramework fid (put_framework fid ?f1 s)" by simp
    then have "?f2 = ?f1" by simp
    then have "updates ?f2 = updates ?f1" by simp
    then show "ack_scan tid (ack_scan tid (updates f)) = ack_scan tid (updates f)" by simp
  next
    assume "ack_scan tid (ack_scan tid (updates f)) = ack_scan tid (updates f)"
    then show "put_framework fid ?f2 s = put_framework fid ?f1 s" by simp
  qed
  then show ?thesis
    using Some by (simp add: 1 2 ack_scan_twice buckets_def)
qed

subsection \<open>The scenario with two updates waiting\<close>

text \<open>
  The scenarios with an executor are what the handlers make of one another (\<open>slave_queued\<close>
  gives \<open>slave_running\<close> gives \<open>slave_pending\<close>), but none of them is a reachable state: a
  run from a constructed slave never gets an executor (see \<open>reachable_no_frameworks\<close>).
\<close>

lemma slave_pending_simps:
  "getFramework ''f1'' slave_pending = Some framework_pending"
  "frameworks slave_pending = [(''f1'', framework_pending)]"
  "master slave_pending = ''master@host''"
  "updates framework_pending =
     [(10, [(''t1'', update_of ''t1'' TASK_RUNNING 0)]),
      (11, [(''t1'', update_of ''t1'' TASK_FINISHED 1)])]"
  by (simp_all add: getFramework_def slave_pending_def slave_empty_def framework_pending_def)

lemma slave_acked_simps:
  "getFramework ''f1'' slave_acked
     = Some (framework_pending\<lparr> updates :=
               [(10, []), (11, [(''t1'', update_of ''t1'' TASK_FINISHED 1)])] \<rparr>)"
  "frameworks slave_acked
     = [(''f1'', framework_pending\<lparr> updates :=
                   [(10, []), (11, [(''t1'', update_of ''t1'' TASK_FINISHED 1)])] \<rparr>)]"
  "master slave_acked = ''master@host''"
  by (simp_all add: getFramework_def slave_acked_def slave_empty_def)

lemma ack_slave_pending:
  "statusUpdateAcknowledged ''s1'' ''f1'' ''t1'' slave_pending = (slave_acked, [])"
  by (simp add: statusUpdateAcknowledged_def getFramework_def slave_pending_simps(4)
        contains_def erase_def put_framework_def hm_set_def slave_pending_def slave_acked_def
        slave_empty_def)

lemma slave_pending_built:
  "\<exists>fx. run [(0, RegisterExecutor ''executor@host'' ''f1'' ''e1''),
              (0, StatusUpdated (update_of ''t1'' TASK_RUNNING 0)),
              (1, StatusUpdated (update_of ''t1'' TASK_FINISHED 1))] slave_queued
          = Inr (slave_pending, fx)"
proof -
  have 1: "registerExecutor ''executor@host'' ''f1'' ''e1'' slave_queued
             = Inr (slave_running,
                    [ResourcesChanged ''f1'' finfo1 einfo1 0,
                     Send ''executor@host''
                       (S2E_REGISTER_REPLY
                          \<lparr> ea_framework_id = ''f1'', ea_executor_id = ''e1'',
                            ea_slave_id = ''s1'', ea_hostname = ''host'',
                            ea_data = ''opaque'' \<rparr>),
                     Send ''executor@host'' (S2E_RUN_TASK finfo1 ''f1'' ''scheduler@host'' task1),
                     Send ''executor@host'' (S2E_RUN_TASK finfo1 ''f1'' ''scheduler@host'' task2)])"
    by (simp add: registerExecutor_def getFramework_def getExecutor_def Let_def addTask_def
          contains_def task1_def task2_def hm_set_def put_framework_def put_executor_def
          slave_queued_def slave_running_def framework_queued_def framework_running_def
          executor_queued_def executor_running_def launched1_def launched2_def einfo1_def
          slave_empty_def)
  define s2 where "s2 = fst (statusUpdate 0 (update_of ''t1'' TASK_RUNNING 0) slave_running)"
  have h1: "getFramework (su_framework_id (update_of ''t1'' TASK_RUNNING 0)) slave_running
              = Some framework_running"
    by (simp add: slave_running_simps)
  have h2: "getExecutor_task (ts_task_id (su_status (update_of ''t1'' TASK_RUNNING 0)))
              framework_running = Some (''e1'', executor_running)"
    by (simp add: getExecutor_task_def contains_def slave_running_simps)
  let ?e2 = "executor_running\<lparr> launchedTasks :=
               [(''t1'', launched1\<lparr> t_state := TASK_RUNNING \<rparr>), (''t2'', launched2)] \<rparr>"
  let ?f2 = "framework_running\<lparr> executors := [(''e1'', ?e2)],
               updates := [(10, [(''t1'', update_of ''t1'' TASK_RUNNING 0)])] \<rparr>"
  have 2: "s2 = slave_empty\<lparr> frameworks := [(''f1'', ?f2)] \<rparr>"
    unfolding s2_def statusUpdate_found[OF h1 h2]
    by (simp add: Let_def terminal_def updateTaskState_def slave_running_simps hm_set_def
          put_framework_def put_executor_def bucket_at_def slave_running_def)
  have g1: "getFramework (su_framework_id (update_of ''t1'' TASK_FINISHED 1)) s2 = Some ?f2"
    by (simp add: 2 getFramework_def)
  have g2: "getExecutor_task (ts_task_id (su_status (update_of ''t1'' TASK_FINISHED 1))) ?f2
              = Some (''e1'', ?e2)"
    by (simp add: getExecutor_task_def contains_def)
  have 3: "fst (statusUpdate 1 (update_of ''t1'' TASK_FINISHED 1) s2) = slave_pending"
    unfolding statusUpdate_found[OF g1 g2]
    by (simp add: Let_def terminal_def updateTaskState_def removeTask_def erase_def
          slave_running_simps hm_set_def launched1_def
          put_framework_def put_executor_def bucket_at_def 2 slave_pending_def
          framework_pending_def framework_running_def executor_finished_def
          executor_running_def)
  show ?thesis
    using 1 3 by (simp add: s2_def case_prod_unfold)
qed

text \<open>
  With the updates \<^verbatim>\<open>t1 = RUNNING\<close> and \<^verbatim>\<open>t1 = FINISHED\<close> both waiting, the first
  acknowledgement empties one bucket and the second one the other.
\<close>

lemma acknowledged_twice_pending:
  "statusUpdateAcknowledged ''s1'' ''f1'' ''t1'' slave_pending = (slave_acked, [])
   \<and> buckets ''f1'' slave_acked = [(10, []), (11, [(''t1'', update_of ''t1'' TASK_FINISHED 1)])]
   \<and> buckets ''f1'' (fst (statusUpdateAcknowledged ''s1'' ''f1'' ''t1'' slave_acked))
       = [(10, []), (11, [])]
   \<and> fst (statusUpdateAcknowledged ''s1'' ''f1'' ''t1'' slave_acked) \<noteq> slave_acked"
proof -
  have b1: "buckets ''f1'' slave_acked
              = [(10, []), (11, [(''t1'', update_of ''t1'' TASK_FINISHED 1)])]"
    by (simp add: buckets_def slave_acked_simps)
  have b2: "buckets ''f1'' (fst (statusUpdateAcknowledged ''s1'' ''f1'' ''t1'' slave_acked))
              = [(10, []), (11, [])]"
    by (simp add: buckets_def statusUpdateAcknowledged_def slave_acked_simps contains_def
          erase_def)
  have "buckets ''f1'' (fst (statusUpdateAcknowledged ''s1'' ''f1'' ''t1'' slave_acked))
          \<noteq> buckets ''f1'' slave_acked"
    unfolding b1 b2 by simp
  then have "fst (statusUpdateAcknowledged ''s1'' ''f1'' ''t1'' slave_acked) \<noteq> slave_acked"
    by auto
  then show ?thesis using ack_slave_pending b1 b2 by simp
qed

subsection \<open>Retransmission after an acknowledgement\<close>

lemma retired_iff:
  "retired fid tid t s \<longleftrightarrow>
     (\<forall>f d b. (fid, f) \<in> set (frameworks s) \<longrightarrow> (d, b) \<in> set (updates f)
               \<longrightarrow> contains b tid \<longrightarrow> t < d)"
  by (auto simp: retired_def)

lemma retired_frameworks_eq:
  "frameworks s' = frameworks s \<Longrightarrow> retired fid tid t s \<Longrightarrow> retired fid tid t s'"
  by (simp add: retired_iff)

lemma retired_put:
  assumes "retired fid tid t s"
    and "k = fid \<Longrightarrow> \<forall>d b. (d, b) \<in> set (updates f') \<longrightarrow> contains b tid \<longrightarrow> t < d"
  shows "retired fid tid t (put_framework k f' s)"
  unfolding retired_iff
proof (intro allI impI)
  fix f d b
  assume a: "(fid, f) \<in> set (frameworks (put_framework k f' s))"
    "(d, b) \<in> set (updates f)" "contains b tid"
  from a(1) have "(fid, f) = (k, f') \<or> (fid, f) \<in> set (frameworks s)"
    using set_hm_set[of "(fid, f)" k f' "frameworks s"] by (simp add: put_framework_def)
  then show "t < d"
  proof
    assume "(fid, f) = (k, f')"
    then show ?thesis using assms(2) a(2,3) by auto
  next
    assume "(fid, f) \<in> set (frameworks s)"
    then show ?thesis using assms(1) a(2,3) by (auto simp: retired_iff)
  qed
qed

lemma retired_put_same:
  assumes "retired fid tid t s" and "getFramework k s = Some f" and "updates f' = updates f"
  shows "retired fid tid t (put_framework k f' s)"
proof (rule retired_put[OF assms(1)])
  assume "k = fid"
  then have "(fid, f) \<in> set (frameworks s)" using assms(2) by (simp add: getFramework_in)
  then show "\<forall>d b. (d, b) \<in> set (updates f') \<longrightarrow> contains b tid \<longrightarrow> t < d"
    using assms(1,3) by (auto simp: retired_iff)
qed

lemma retired_erase:
  "retired fid tid t s \<Longrightarrow> retired fid tid t (s\<lparr> frameworks := erase k (frameworks s) \<rparr>)"
  by (auto simp: retired_iff dest: set_erase)

lemma ack_scan_entry:
  "(d, b') \<in> set (ack_scan tid' ups) \<Longrightarrow>
     \<exists>b. (d, b) \<in> set ups \<and> (b' = b \<or> b' = erase tid' b)"
  by (induction tid' ups rule: ack_scan.induct) (auto split: if_splits; blast)+

lemma retired_ack:
  assumes "retired fid tid t s"
  shows "retired fid tid t (fst (statusUpdateAcknowledged sid fid' tid' s))"
proof (cases "getFramework fid' s")
  case None
  then show ?thesis using assms by (simp add: statusUpdateAcknowledged_def)
next
  case (Some f)
  have "retired fid tid t (put_framework fid' (f\<lparr> updates := ack_scan tid' (updates f) \<rparr>) s)"
  proof (rule retired_put[OF assms])
    assume k: "fid' = fid"
    then have in_s: "(fid, f) \<in> set (frameworks s)" using Some by (simp add: getFramework_in)
    show "\<forall>d b. (d, b) \<in> set (updates (f\<lparr> updates := ack_scan tid' (updates f) \<rparr>))
            \<longrightarrow> contains b tid \<longrightarrow> t < d"
    proof (intro allI impI)
      fix d b'
      assume e: "(d, b') \<in> set (updates (f\<lparr> updates := ack_scan tid' (updates f) \<rparr>))"
        and c: "contains b' tid"
      from e obtain b where b: "(d, b) \<in> set (updates f)" "b' = b \<or> b' = erase tid' b"
        using ack_scan_entry[of d b' tid' "updates f"] by auto
      from b(2) c have "contains b tid" by (auto dest: contains_erase_imp)
      then show "t < d" using assms in_s b(1) by (auto simp: retired_iff)
    qed
  qed
  then show ?thesis using Some by (simp add: statusUpdateAcknowledged_def)
qed

lemma retired_statusUpdate:
  fixes s :: "'r::minus Slave"
  assumes "retired fid tid t s" and "t \<le> now"
  shows "retired fid tid t (fst (statusUpdate now u s))"
proof (cases "getFramework (su_framework_id u) s")
  case None
  then show ?thesis using assms statusUpdate_dropped[of u s now] by simp
next
  case (Some f)
  show ?thesis
  proof (cases "getExecutor_task (ts_task_id (su_status u)) f")
    case None
    then show ?thesis using assms Some statusUpdate_dropped[of u s now] by simp
  next
    case (Some ke)
    obtain k e where ke: "ke = (k, e)" by (cases ke)
    note fw = \<open>getFramework (su_framework_id u) s = Some f\<close>
    note r = statusUpdate_found[OF fw Some[unfolded ke], of now]
    show ?thesis
      unfolding r Let_def fst_conv
    proof (rule retired_put[OF assms(1)])
      assume k: "su_framework_id u = fid"
      then have in_s: "(fid, f) \<in> set (frameworks s)" using fw by (simp add: getFramework_in)
      let ?e2 = "if terminal (ts_state (su_status u))
                 then removeTask (ts_task_id (su_status u))
                        (updateTaskState (ts_task_id (su_status u)) (ts_state (su_status u)) e)
                 else updateTaskState (ts_task_id (su_status u)) (ts_state (su_status u)) e"
      let ?nb = "hm_set (ts_task_id (su_status u)) u (bucket_at (updates f) (now + 10))"
      show "\<forall>d b. (d, b) \<in> set (updates ((put_executor k ?e2 f)\<lparr> updates :=
                hm_set (now + 10) ?nb (updates f) \<rparr>))
              \<longrightarrow> contains b tid \<longrightarrow> t < d"
      proof (intro allI impI)
        fix d b
        assume e: "(d, b) \<in> set (updates ((put_executor k ?e2 f)\<lparr> updates :=
                hm_set (now + 10) ?nb (updates f) \<rparr>))" and c: "contains b tid"
        from e have "(d, b) = (now + 10, ?nb) \<or> (d, b) \<in> set (updates f)"
          using set_hm_set[of "(d, b)" "now + 10" ?nb "updates f"] by simp
        then show "t < d"
        proof
          assume "(d, b) = (now + 10, ?nb)"
          then show ?thesis using assms(2) by simp
        next
          assume "(d, b) \<in> set (updates f)"
          then show ?thesis using assms(1) in_s c by (auto simp: retired_iff)
        qed
      qed
    qed
  qed
qed

lemma retired_killTask:
  fixes s :: "'r::minus Slave"
  assumes "retired fid tid t s"
  shows "retired fid tid t (fst (killTask now fid' tid' s))"
proof (cases "getFramework fid' s")
  case None
  then show ?thesis using assms by (simp add: killTask_def)
next
  case (Some f)
  show ?thesis
  proof (cases "getExecutor_task tid' f")
    case None
    then show ?thesis using assms Some by (simp add: killTask_def)
  next
    case (Some ke)
    obtain k e where ke: "ke = (k, e)" by (cases ke)
    note fw = \<open>getFramework fid' s = Some f\<close>
    show ?thesis
    proof (cases "e_pid e = []")
      case True
      show ?thesis
        unfolding killTask_unregistered[OF fw Some[unfolded ke] True] fst_conv
        by (rule retired_put_same[OF assms fw]) simp
    next
      case False
      then show ?thesis using assms fw Some ke by (simp add: killTask_def)
    qed
  qed
qed

lemma retired_registerExecutor:
  fixes s :: "'r::plus Slave"
  assumes "retired fid tid t s" and "registerExecutor sender fid' eid s = Inr (s', fx)"
  shows "retired fid tid t s'"
proof (cases "getFramework fid' s")
  case None
  then show ?thesis using assms by (simp add: registerExecutor_def)
next
  case (Some f)
  show ?thesis
  proof (cases "getExecutor eid f")
    case None
    then show ?thesis using assms Some by (simp add: registerExecutor_def)
  next
    case (Some e)
    note fw = \<open>getFramework fid' s = Some f\<close>
    show ?thesis
    proof (cases "e_pid e = []")
      case False
      then show ?thesis using assms fw Some by (simp add: registerExecutor_def)
    next
      case True
      from assms(2) obtain e1 where "s' = put_framework fid' (put_executor eid e1 f) s"
        using fw Some True
        by (auto simp: registerExecutor_def Let_def split: sum.splits)
      then show ?thesis
        using retired_put_same[OF assms(1) fw, of "put_executor eid e1 f"] by simp
    qed
  qed
qed

lemma retired_updateFramework:
  assumes "retired fid tid t s"
  shows "retired fid tid t (fst (updateFramework fid' pid s))"
proof (cases "getFramework fid' s")
  case None
  then show ?thesis using assms by (simp add: updateFramework_def)
next
  case (Some f)
  then show ?thesis
    using retired_put_same[OF assms Some, of "f\<lparr> f_pid := pid \<rparr>"]
    by (simp add: updateFramework_def)
qed

lemma frameworks_removeFramework:
  "frameworks (fst (removeFramework f k s)) = erase (f_id (fst (remove_executors f (map snd (executors f)) k))) (frameworks s)"
  by (simp add: removeFramework_def Let_def case_prod_unfold)

lemma retired_removeFramework:
  assumes "retired fid tid t s"
  shows "retired fid tid t (fst (removeFramework f k s))"
  using retired_erase[OF assms]
  by (simp add: removeFramework_def Let_def case_prod_unfold)

lemma retired_killFramework:
  assumes "retired fid tid t s"
  shows "retired fid tid t (fst (killFramework fid' s))"
  using assms retired_removeFramework[OF assms]
  by (simp add: killFramework_def split: option.splits)

lemma updates_destroyExecutor [simp]: "updates (destroyExecutor k f) = updates f"
  by (simp add: destroyExecutor_def)

lemma retired_executorExited:
  assumes "retired fid tid t s"
  shows "retired fid tid t (fst (executorExited fid' eid result s))"
proof (cases "getFramework fid' s")
  case None
  then show ?thesis using assms by (simp add: executorExited_def)
next
  case (Some f)
  show ?thesis
  proof (cases "getExecutor eid f")
    case None
    then show ?thesis using assms Some by (simp add: executorExited_def)
  next
    case (Some e)
    note fw = \<open>getFramework fid' s = Some f\<close>
    let ?f1 = "destroyExecutor (e_id e) f"
    have 1: "retired fid tid t (put_framework fid' ?f1 s)"
      by (rule retired_put_same[OF assms fw]) simp
    show ?thesis
      using 1 retired_removeFramework[OF 1, of ?f1 True] fw Some
      by (simp add: executorExited_def removeExecutor_def Let_def case_prod_unfold)
  qed
qed

lemma retired_runTask:
  fixes s :: "'r::{plus,zero} Slave"
  assumes "retired fid tid t s"
    and "runTask opendir launched unconstructed finfo fid' pid task s = Inr (s', fx)"
  shows "retired fid tid t s'"
proof (cases "getFramework fid' s")
  case None
  define f0 :: "'r Framework" where "f0 = new_Framework fid' finfo pid"
  have u0: "updates f0 = []" by (simp add: f0_def new_Framework_def)
  have r0: "retired fid tid t (put_framework fid' f0 s)"
    by (rule retired_put[OF assms(1)]) (simp add: u0)
  have g0: "getFramework fid' (put_framework fid' f0 s) = Some f0" by simp
  from assms(2) obtain eid ex where
    "s' = put_framework fid' (put_executor eid ex f0) (put_framework fid' f0 s)"
    unfolding runTask_def Let_def deref_def None f0_def[symmetric] option.case prod.case
    by (auto split: option.splits if_splits sum.splits)
  then show ?thesis
    using retired_put_same[OF r0 g0, of "put_executor eid ex f0"] by simp
next
  case (Some f)
  from assms(2) obtain eid ex where "s' = put_framework fid' (put_executor eid ex f) s"
    unfolding runTask_def Let_def deref_def Some option.case prod.case
    by (auto split: option.splits if_splits sum.splits)
  then show ?thesis
    using retired_put_same[OF assms(1) Some, of "put_executor eid ex f"] by simp
qed

lemma retired_handle:
  fixes s :: "'r::{plus,minus,zero} Slave"
  assumes "retired fid tid t s" and "t \<le> now" and "handle now ev s = Inr (s', fx)"
  shows "retired fid tid t s'"
proof (cases ev)
  case (NewMasterDetected pid)
  then show ?thesis
    using assms by (auto simp: newMasterDetected_def Let_def retired_iff split: if_splits)
next
  case NoMasterDetected
  then show ?thesis using assms by (auto simp: noMasterDetected_def)
next
  case (RegisterReply x)
  then show ?thesis using assms by (auto simp: registerReply_def retired_iff)
next
  case (ReregisterReply x)
  then show ?thesis using assms by (auto simp: reregisterReply_def split: if_splits)
next
  case (RunTask opendir launched unconstructed finfo fid' pid task)
  then show ?thesis using assms retired_runTask by auto
next
  case (KillTask fid' tid')
  then show ?thesis using assms retired_killTask[OF assms(1), of now fid' tid'] by auto
next
  case (KillFramework fid')
  then show ?thesis using assms retired_killFramework[OF assms(1), of fid'] by auto
next
  case (SchedulerMessage x1 x2 x3 x4)
  then show ?thesis
    using assms
    by (auto simp: schedulerMessage_def count_invalid_message_def count_valid_message_def
          retired_iff split: option.splits if_splits)
next
  case (UpdateFramework fid' pid)
  then show ?thesis using assms retired_updateFramework[OF assms(1), of fid' pid] by auto
next
  case (StatusUpdateAck sid fid' tid')
  then show ?thesis using assms retired_ack[OF assms(1), of sid fid' tid'] by auto
next
  case (RegisterExecutor sender fid' eid)
  then show ?thesis using assms retired_registerExecutor by auto
next
  case (StatusUpdated u)
  then show ?thesis using assms retired_statusUpdate[OF assms(1,2), of u] by auto
next
  case (ExecutorMessage x1 x2 x3 x4)
  then show ?thesis
    using assms
    by (auto simp: executorMessage_def count_invalid_message_def count_valid_message_def
          retired_iff split: option.splits)
next
  case (Ping x)
  then show ?thesis using assms by (auto simp: ping_def)
next
  case Timeout
  then show ?thesis using assms by (auto simp: timeout_def)
next
  case (Exited x)
  then show ?thesis using assms by (auto simp: exited_def split: if_splits)
next
  case (ExecutorExited fid' eid result)
  then show ?thesis using assms retired_executorExited[OF assms(1), of fid' eid result] by auto
qed

lemma retired_run:
  fixes s :: "'r::{plus,minus,zero} Slave"
  assumes "retired fid tid t s"
    and "\<forall>(now, ev) \<in> set evs. t \<le> now"
    and "run evs s = Inr (s', fx)"
  shows "retired fid tid t s'"
  using assms
proof (induction evs arbitrary: s fx)
  case Nil
  then show ?case by simp
next
  case (Cons p evs)
  obtain now ev where p: "p = (now, ev)" by (cases p)
  from Cons.prems(3) obtain s1 fx1 fx2 where
    h: "handle now ev s = Inr (s1, fx1)" and r: "run evs s1 = Inr (s', fx2)"
    unfolding p by (auto split: sum.splits)
  have "t \<le> now" using Cons.prems(2) p by simp
  then have "retired fid tid t s1" using retired_handle[OF Cons.prems(1) _ h] by simp
  moreover have "\<forall>(now, ev) \<in> set evs. t \<le> now" using Cons.prems(2) by simp
  ultimately show ?case using Cons.IH r by blast
qed

lemma holding_zero: "holding tid ups = 0 \<longleftrightarrow> (\<forall>(d, b) \<in> set ups. \<not> contains b tid)"
  by (induction ups) (auto split: if_splits)

lemma retired_after_ack:
  assumes "hashmap_ok (frameworks s)" and "holding tid (buckets fid s) \<le> 1"
  shows "retired fid tid t (fst (statusUpdateAcknowledged sid fid tid s))"
proof (cases "getFramework fid s")
  case None
  then have "\<And>f. (fid, f) \<notin> set (frameworks s)"
    by (simp add: getFramework_def hashmap_ok_absent)
  then show ?thesis using None by (simp add: statusUpdateAcknowledged_def retired_iff)
next
  case (Some f)
  let ?f1 = "f\<lparr> updates := ack_scan tid (updates f) \<rparr>"
  let ?s1 = "put_framework fid ?f1 s"
  have ok: "hashmap_ok (frameworks ?s1)"
    using assms(1) by (simp add: put_framework_def hashmap_ok_hm_set)
  have g: "map_of (frameworks ?s1) fid = Some ?f1"
    by (simp add: put_framework_def)
  have z: "holding tid (ack_scan tid (updates f)) = 0"
    using assms(2) Some by (simp add: holding_ack_scan buckets_def)
  have "retired fid tid t ?s1"
    unfolding retired_iff
  proof (intro allI impI)
    fix f' d b
    assume a: "(fid, f') \<in> set (frameworks ?s1)" "(d, b) \<in> set (updates f')" "contains b tid"
    have "f' = ?f1" using hashmap_ok_unique[OF ok g a(1)] .
    then have "(d, b) \<in> set (ack_scan tid (updates f))" using a(2) by simp
    then have "\<not> contains b tid" using z by (auto simp: holding_zero)
    then show "t < d" using a(3) by simp
  qed
  then show ?thesis using Some by (simp add: statusUpdateAcknowledged_def)
qed

lemma resent_entry:
  "(fid, d, tid, u) \<in> set (resent now s) \<Longrightarrow>
     \<exists>f b. (fid, f) \<in> set (frameworks s) \<and> (d, b) \<in> set (updates f) \<and> d \<le> now
          \<and> (tid, u) \<in> set b"
  by (auto simp: resent_def split: if_splits)

lemma resend_bucket_map:
  "map ((\<lambda>(fid, d, tid, u). Send to (S2M_STATUS_UPDATE u True))
        \<circ> (\<lambda>(taskId, update). (fid, d, taskId, update))) bucket
     = resend_bucket to bucket"
  by (simp add: resend_bucket_def case_prod_unfold comp_def)

lemma resend_framework_map:
  "map (\<lambda>(fid, d, tid, u). Send to (S2M_STATUS_UPDATE u True))
       (concat (map (\<lambda>(deadline, bucket).
          if deadline \<le> now
          then map (\<lambda>(taskId, update). (fid, deadline, taskId, update)) bucket
          else []) ups))
     = concat (map (\<lambda>(deadline, bucket).
          if deadline \<le> now then resend_bucket to bucket else []) ups)"
  by (induction ups) (auto simp: resend_bucket_map)

lemma timeout_resent:
  "timeout now s =
     (s, map (\<lambda>(fid, d, tid, u). Send (master s) (S2M_STATUS_UPDATE u True)) (resent now s))"
proof -
  have "map (\<lambda>(fid, d, tid, u). Send to (S2M_STATUS_UPDATE u True))
          (concat (map (\<lambda>(frameworkId, framework).
             concat (map (\<lambda>(deadline, bucket).
               if deadline \<le> now
               then map (\<lambda>(taskId, update). (frameworkId, deadline, taskId, update)) bucket
               else []) (updates framework))) fws))
        = concat (map (\<lambda>(frameworkId, framework). resend_framework to now framework) fws)"
    for to and fws :: "(FrameworkID, 'a Framework) hashmap"
    by (induction fws) (auto simp: resend_framework_map resend_framework_def)
  then show ?thesis by (simp add: timeout_def resent_def)
qed

text \<open>
  On any slave whose framework map has one entry for a key: when an acknowledgement for a
  task of a framework is handled while at most one deadline bucket of the framework holds
  the task id, and any events follow, none earlier than \<open>t\<close>, without the slave stopping,
  then a \<^verbatim>\<open>timeout\<close> sends again exactly the entries listed by \<open>resent\<close>, and none of them is
  stored for that framework and task under a deadline up to \<open>t\<close>. The acknowledgement erases
  the first match only: what other buckets hold for the task id stays and is sent again.
\<close>

lemma acknowledged_not_resent:
  fixes s :: "'r::{plus,minus,zero} Slave"
  assumes "hashmap_ok (frameworks s)"
    and "holding tid (buckets fid s) \<le> 1"
    and "statusUpdateAcknowledged sid fid tid s = (s1, fx1)"
    and "\<forall>(now', ev) \<in> set evs. t \<le> now'"
    and "run evs s1 = Inr (s', fx)"
  shows "timeout now s' =
           (s', map (\<lambda>(fid', d, tid', u). Send (master s') (S2M_STATUS_UPDATE u True))
                    (resent now s'))
       \<and> (\<forall>(fid', d, tid', u) \<in> set (resent now s').
             \<not> (fid' = fid \<and> tid' = tid \<and> d \<le> t))"
proof -
  have "retired fid tid t s1"
    using retired_after_ack[OF assms(1,2), of t sid] assms(3) by simp
  then have r: "retired fid tid t s'"
    using retired_run[OF _ assms(4,5)] by simp
  have "\<forall>(fid', d, tid', u) \<in> set (resent now s').
             \<not> (fid' = fid \<and> tid' = tid \<and> d \<le> t)"
  proof (clarify)
    fix d u
    assume a: "(fid, d, tid, u) \<in> set (resent now s')" "d \<le> t"
    from resent_entry[OF a(1)] obtain f b where
      fb: "(fid, f) \<in> set (frameworks s')" "(d, b) \<in> set (updates f)" "(tid, u) \<in> set b"
      by blast
    have "contains b tid" using fb(3) by (rule contains_member)
    then have "t < d" using r fb(1,2) by (auto simp: retired_iff)
    then show False using a(2) by simp
  qed
  then show ?thesis using timeout_resent[of now s'] by simp
qed

text \<open>
  With \<^verbatim>\<open>t1 = RUNNING\<close> stored under deadline 10 and \<^verbatim>\<open>t1 = FINISHED\<close> under deadline 11, one
  acknowledgement for \<^verbatim>\<open>t1\<close> erases the first; a \<^verbatim>\<open>timeout\<close> at time 21 sends the second again.
\<close>

lemma acknowledged_resent_pending:
  "statusUpdateAcknowledged ''s1'' ''f1'' ''t1'' slave_pending = (slave_acked, [])
   \<and> resent 21 slave_acked = [(''f1'', 11, ''t1'', update_of ''t1'' TASK_FINISHED 1)]
   \<and> timeout 21 slave_acked
       = (slave_acked,
          [Send ''master@host'' (S2M_STATUS_UPDATE (update_of ''t1'' TASK_FINISHED 1) True)])"
  by (simp add: ack_slave_pending resent_def timeout_def resend_framework_def
        resend_bucket_def slave_acked_simps)

subsection \<open>Acknowledgement and retransmission in reachable states\<close>

text \<open>
  A run from a constructed slave never has a framework after a handler has returned: the
  first \<^verbatim>\<open>runTask\<close> of a framework creates the framework, finds no executor and stops at
  \<^verbatim>\<open>executor->id\<close>; no other handler adds a framework.
\<close>

lemma handle_no_frameworks:
  fixes s :: "'r::{plus,minus,zero} Slave"
  assumes "frameworks s = []" and "handle now ev s = Inr (s', fx)"
  shows "frameworks s' = []"
proof -
  have g: "\<And>k. getFramework k s = None" using assms(1) by (simp add: getFramework_def)
  show ?thesis
  proof (cases ev)
    case (NewMasterDetected pid)
    then show ?thesis
      using assms by (auto simp: newMasterDetected_def Let_def split: if_splits)
  next
    case NoMasterDetected
    then show ?thesis using assms by (auto simp: noMasterDetected_def)
  next
    case (RegisterReply x)
    then show ?thesis using assms by (auto simp: registerReply_def)
  next
    case (ReregisterReply x)
    then show ?thesis using assms by (auto simp: reregisterReply_def split: if_splits)
  next
    case (RunTask opendir launched unconstructed finfo fid pid task)
    have "getExecutor (case td_executor task of
                         Some einfo \<Rightarrow> executor_id einfo
                       | None \<Rightarrow> executor_id (fi_executor (f_info (new_Framework fid finfo pid))))
            (new_Framework fid finfo pid :: 'r Framework) = None"
      by (simp add: getExecutor_def new_Framework_def)
    then have "runTask opendir launched unconstructed finfo fid pid task s
                 = Inl NullPointerDereference"
      using runTask_new_executor[where framework = "new_Framework fid finfo pid"
              and frameworkId = fid and s = s and frameworkInfo = finfo and pid = pid
              and task = task]
      by (simp add: g)
    then show ?thesis using assms RunTask by simp
  next
    case (KillTask fid tid)
    then show ?thesis using assms by (auto simp: killTask_def g)
  next
    case (KillFramework fid)
    then show ?thesis using assms by (auto simp: killFramework_def g)
  next
    case (SchedulerMessage x1 x2 x3 x4)
    then show ?thesis
      using assms by (auto simp: schedulerMessage_def g count_invalid_message_def)
  next
    case (UpdateFramework fid pid)
    then show ?thesis using assms by (auto simp: updateFramework_def g)
  next
    case (StatusUpdateAck sid fid tid)
    then show ?thesis using assms by (auto simp: statusUpdateAcknowledged_def g)
  next
    case (RegisterExecutor sender fid eid)
    then show ?thesis using assms by (auto simp: registerExecutor_def g)
  next
    case (StatusUpdated u)
    then show ?thesis using assms statusUpdate_dropped[of u s now] by (auto simp: g)
  next
    case (ExecutorMessage x1 x2 x3 x4)
    then show ?thesis
      using assms by (auto simp: executorMessage_def g count_invalid_message_def)
  next
    case (Ping x)
    then show ?thesis using assms by (auto simp: ping_def)
  next
    case Timeout
    then show ?thesis using assms by (auto simp: timeout_def)
  next
    case (Exited x)
    then show ?thesis using assms by (auto simp: exited_def split: if_splits)
  next
    case (ExecutorExited fid eid result)
    then show ?thesis using assms by (auto simp: executorExited_def g)
  qed
qed

lemma reachable_no_frameworks:
  fixes s :: "'r::{plus,minus,zero} Slave"
  shows "reachable s \<Longrightarrow> frameworks s = []"
  by (induction rule: reachable.induct) (auto dest: handle_no_frameworks)


lemma reachable_registry_ok:
  fixes s :: "'r::{plus,minus,zero} Slave"
  shows "reachable s \<Longrightarrow> registry_ok s"
  by (simp add: reachable_no_frameworks registry_ok_empty)

lemma scenarios_not_reachable:
  "\<not> reachable slave_queued" "\<not> reachable slave_running" "\<not> reachable slave_pending"
  "\<not> reachable slave_acked"
  using reachable_no_frameworks[of slave_queued] reachable_no_frameworks[of slave_running]
    reachable_no_frameworks[of slave_pending] reachable_no_frameworks[of slave_acked]
  by (auto simp: slave_queued_def slave_running_def slave_pending_def slave_acked_def)







end
